theory Spec2Isabelle
  imports Main
begin

section \<open>The entity model of \<^verbatim>\<open>tswow-orm.ts\<close>\<close>

text \<open>
  \<^verbatim>\<open>tswow-orm.ts\<close> is a code generator: from the decorated classes of a livescript it
  writes C++ text, the query builders and the \<^verbatim>\<open>save\<close>/\<^verbatim>\<open>remove\<close>/\<^verbatim>\<open>Load\<close> members of
  each class, and one block of table reconciliation code per table. The embedding
  follows that: the entity model is the data the generator keeps, and each generated
  routine is modelled by what the written C++ does when it runs, as a function of the
  values it reads (member values, catalog rows).
\<close>

datatype DBType = world | auth | characters

text \<open>The keys of \<^verbatim>\<open>MethodTypes\<close>, in the order of the object literal.\<close>

datatype FieldType =
    T_string | T_uint8 | T_uint16 | T_uint32 | T_uint64
  | T_int8 | T_int16 | T_int32 | T_int64 | T_float | T_double | T_int

fun type_name :: "FieldType \<Rightarrow> string" where
  "type_name T_string = ''string''"
| "type_name T_uint8 = ''uint8''"
| "type_name T_uint16 = ''uint16''"
| "type_name T_uint32 = ''uint32''"
| "type_name T_uint64 = ''uint64''"
| "type_name T_int8 = ''int8''"
| "type_name T_int16 = ''int16''"
| "type_name T_int32 = ''int32''"
| "type_name T_int64 = ''int64''"
| "type_name T_float = ''float''"
| "type_name T_double = ''double''"
| "type_name T_int = ''int''"

definition MethodTypes :: "FieldType list" where
  "MethodTypes = [T_string, T_uint8, T_uint16, T_uint32, T_uint64,
                  T_int8, T_int16, T_int32, T_int64, T_float, T_double, T_int]"

record Field =
  name :: string
  type :: FieldType
  initialization :: string
  isPrimaryKey :: bool

record DBDictionary =
  dict_name :: string
  keyType :: FieldType
  valueType :: FieldType

record Entry =
  className :: string
  entry_fields :: "Field list"
  databaseType :: DBType
  dictionaries :: "DBDictionary list"

text \<open>
  Strings are sequences of ASCII characters, as the names of classes, members and
  columns and the type texts of a catalog are. On them \<^verbatim>\<open>toLowerCase\<close> and
  \<^verbatim>\<open>std::toupper\<close> change the 26 letters and leave every other character as it is. A
  name with a letter outside ASCII, which JavaScript would also convert, is outside
  the domain of these definitions.
\<close>

definition toLower :: "char \<Rightarrow> char" where
  "toLower c =
     (case map_of (zip ''ABCDEFGHIJKLMNOPQRSTUVWXYZ'' ''abcdefghijklmnopqrstuvwxyz'') c of
        Some l \<Rightarrow> l | None \<Rightarrow> c)"

definition toUpper :: "char \<Rightarrow> char" where
  "toUpper c =
     (case map_of (zip ''abcdefghijklmnopqrstuvwxyz'' ''ABCDEFGHIJKLMNOPQRSTUVWXYZ'') c of
        Some u \<Rightarrow> u | None \<Rightarrow> c)"

definition toLowerCase :: "string \<Rightarrow> string" where
  "toLowerCase s = map toLower s"

definition db_name :: "Entry \<Rightarrow> DBDictionary \<Rightarrow> string" where
  "db_name owner x = toLowerCase (className owner) @ ''_'' @ toLowerCase (dict_name x)"

text \<open>
  \<^verbatim>\<open>sqlInitialization()\<close>: the text written into the C++ literal of the \<^verbatim>\<open>UPDATE\<close>
  statement. For a string the first and the last character of the initializer are
  written escaped: a backslash, the initializer without its last character, and \<^verbatim>\<open>\"\<close>.
\<close>

definition sqlInitialization :: "Field \<Rightarrow> string" where
  "sqlInitialization f =
     (if type f = T_string then
        [CHR 0x5C] @ take (length (initialization f) - 1) (initialization f)
          @ [CHR 0x5C, CHR 0x22]
      else initialization f)"

section \<open>SQL type renderings\<close>

fun getReadSQLType :: "Field \<Rightarrow> string" where
  "getReadSQLType field =
     (case type field of
        T_int \<Rightarrow> ''INT(11)''
      | T_int8 \<Rightarrow> ''TINYINT(4)''
      | T_int16 \<Rightarrow> ''SMALLINT(6)''
      | T_int32 \<Rightarrow> ''INT(11)''
      | T_int64 \<Rightarrow> ''BIGINT(20)''
      | T_uint8 \<Rightarrow> ''TINYINT(3) UNSIGNED''
      | T_uint16 \<Rightarrow> ''SMALLINT(5) UNSIGNED''
      | T_uint32 \<Rightarrow> ''INT(10) UNSIGNED''
      | T_uint64 \<Rightarrow> ''BIGINT(20) UNSIGNED''
      | T_float \<Rightarrow> ''FLOAT''
      | T_double \<Rightarrow> ''DOUBLE''
      | T_string \<Rightarrow> ''TEXT'')"

fun getWriteSQLType :: "Field \<Rightarrow> string" where
  "getWriteSQLType field =
     (case type field of
        T_int \<Rightarrow> ''INT''
      | T_int8 \<Rightarrow> ''TINYINT''
      | T_int16 \<Rightarrow> ''SMALLINT''
      | T_int32 \<Rightarrow> ''INT''
      | T_int64 \<Rightarrow> ''BIGINT''
      | T_uint8 \<Rightarrow> ''TINYINT UNSIGNED''
      | T_uint16 \<Rightarrow> ''SMALLINT UNSIGNED''
      | T_uint32 \<Rightarrow> ''INT UNSIGNED''
      | T_uint64 \<Rightarrow> ''BIGINT UNSIGNED''
      | T_float \<Rightarrow> ''FLOAT''
      | T_double \<Rightarrow> ''DOUBLE''
      | T_string \<Rightarrow> ''TEXT'')"

section \<open>Table reconciliation: the code written by \<^verbatim>\<open>tableGeneration\<close>\<close>

text \<open>
  The statements the written block can execute, named by what they do. For a table
  \<open>t\<close> and the schema name \<open>db\<close> read from \<^verbatim>\<open>DatabaseInfo()\<close> of the entity's database:
  \<^item> \<open>SelectColumns\<close>: \<^verbatim>\<open>SELECT * from `information_schema`.`COLUMNS` WHERE `TABLE_SCHEMA`= "db" AND `TABLE_NAME` = "t";\<close>
  \<^item> \<open>SelectKeyColumnUsage c\<close>: \<^verbatim>\<open>SELECT * from `information_schema`.`KEY_COLUMN_USAGE` WHERE `CONSTRAINT_SCHEMA` = "db" and `TABLE_NAME` = "t" and `COLUMN_NAME` = "c" ;\<close>
  \<^item> \<open>AlterDrop c\<close>: \<^verbatim>\<open>ALTER TABLE `t` DROP `c`;\<close>
  \<^item> \<open>AlterAdd c ty\<close>: \<^verbatim>\<open>ALTER TABLE `t` ADD `c` ty;\<close>
  \<^item> \<open>AlterModify c ty\<close>: \<^verbatim>\<open>ALTER TABLE `t` MODIFY `c` ty;\<close>
  \<^item> \<open>DropTableIfExists\<close>: \<^verbatim>\<open>DROP TABLE IF EXISTS `t`;\<close>
  \<^item> \<open>CreateTable fs\<close>: \<^verbatim>\<open>CREATE TABLE `t` (`f` wt, ... PRIMARY KEY (pk,...));\<close> with the write
    type of every field of \<open>fs\<close> and the names of its primary keys;
  \<^item> \<open>UpdateDefault f\<close>: \<^verbatim>\<open>UPDATE `t` SET f = init WHERE f IS NULL;\<close> with the field's
    \<^verbatim>\<open>sqlInitialization()\<close>.
\<close>

datatype stmt =
    SelectColumns
  | SelectKeyColumnUsage string
  | AlterDrop string
  | AlterAdd string string
  | AlterModify string string
  | DropTableIfExists
  | CreateTable "Field list"
  | UpdateDefault Field

text \<open>
  What the block does, in order: \<open>Ask msg\<close> is a call of \<^verbatim>\<open>ask(msg)\<close>, and \<open>Query d s\<close> is
  the statement \<open>s\<close> sent through \<^verbatim>\<open>QueryWorld\<close>, \<^verbatim>\<open>QueryAuth\<close> or \<^verbatim>\<open>QueryCharacters\<close>.
\<close>

datatype event = Ask string | Query DBType stmt

text \<open>
  One row of the \<^verbatim>\<open>COLUMNS\<close> result: the strings at \<^verbatim>\<open>COLUMN_NAME_INDEX\<close> and
  \<^verbatim>\<open>COLUMN_TYPE_INDEX\<close>, and whether the \<^verbatim>\<open>KEY_COLUMN_USAGE\<close> query made for this row
  returns a row (the local \<^verbatim>\<open>was_pk\<close>).
\<close>

record column_row =
  column_name :: string
  column_type :: string
  was_pk :: bool

text \<open>
  The locals of the block: what has been executed so far, \<^verbatim>\<open>should_create\<close>, and the
  names \<open>x\<close> whose flag \<^verbatim>\<open>found_x\<close> is true.
\<close>

record gen_state =
  trace :: "event list"
  should_create :: bool
  found :: "string set"

definition emit :: "event list \<Rightarrow> gen_state \<Rightarrow> gen_state" where
  "emit es st = st\<lparr>trace := trace st @ es\<rparr>"

definition changed_type_msg :: "string \<Rightarrow> string \<Rightarrow> string \<Rightarrow> Field \<Rightarrow> string" where
  "changed_type_msg tableName column ty x =
     tableName @ '':'' @ column @ '' changed type from '' @ ty @ '' to '' @ type_name (type x)"

text \<open>
  The body of the \<^verbatim>\<open>do\<close> loop for one row. The \<^verbatim>\<open>if\<close>/\<^verbatim>\<open>else if\<close> chain over the fields
  takes the first field whose name is the column's. The second component is true when
  the body leaves the loop by \<^verbatim>\<open>break\<close>. The block is written for the fields of an
  entry or of a dictionary, so for at least one field; with distinct field names the
  flags \<^verbatim>\<open>found_x\<close> are distinct variables.
\<close>

definition column_step ::
  "string \<Rightarrow> DBType \<Rightarrow> Field list \<Rightarrow> column_row \<Rightarrow> gen_state \<Rightarrow> gen_state \<times> bool" where
  "column_step tableName dbtype fs row st =
     (let column = column_name row;
          st1 = emit [Query world (SelectKeyColumnUsage column)] st
      in case find (\<lambda>x. name x = column) fs of
           None \<Rightarrow>
             (emit [Ask (tableName @ '':'' @ column @ '' was removed''),
                    Query dbtype (AlterDrop column)] st1, False)
         | Some x \<Rightarrow>
             (let st2 = st1\<lparr>found := insert (name x) (found st1)\<rparr>;
                  ty = map toUpper (column_type row)
              in if ty \<noteq> getReadSQLType x then
                   (if type x = T_string then
                      (emit [Ask (changed_type_msg tableName column ty x),
                             Query dbtype (AlterDrop column),
                             Query dbtype (AlterAdd column ''TEXT'')] st2, False)
                    else if ty = ''TEXT'' then
                      (emit [Ask (changed_type_msg tableName column ty x),
                             Query dbtype (AlterDrop column),
                             Query dbtype (AlterAdd column (getWriteSQLType x))] st2, False)
                    else if was_pk row then
                      (emit [Ask (changed_type_msg tableName column ty x
                                   @ '' and was a primary key (whole db will be destroyed)'')]
                         (st2\<lparr>should_create := True\<rparr>), True)
                    else
                      (emit [Ask (changed_type_msg tableName column ty x),
                             Query dbtype (AlterModify (name x) (getWriteSQLType x))] st2, False))
                 else (st2, False)))"

text \<open>
  The \<^verbatim>\<open>do ... while(rows->GetRow())\<close> loop over the rows that are left; the second
  component tells whether the loop was left by \<^verbatim>\<open>break\<close>.
\<close>

fun scan ::
  "string \<Rightarrow> DBType \<Rightarrow> Field list \<Rightarrow> column_row list \<Rightarrow> gen_state \<Rightarrow> gen_state \<times> bool" where
  "scan tableName dbtype fs [] st = (st, False)"
| "scan tableName dbtype fs (row # rows) st =
     (case column_step tableName dbtype fs row st of
        (st', True) \<Rightarrow> (st', True)
      | (st', False) \<Rightarrow> scan tableName dbtype fs rows st')"

text \<open>The \<^verbatim>\<open>if( !should_create && !found_x )\<close> blocks after the loop, one per field.\<close>

fun missing_fields :: "string \<Rightarrow> DBType \<Rightarrow> Field list \<Rightarrow> gen_state \<Rightarrow> gen_state" where
  "missing_fields tableName dbtype [] st = st"
| "missing_fields tableName dbtype (x # xs) st =
     missing_fields tableName dbtype xs
       (if \<not> should_create st \<and> name x \<notin> found st then
          (if isPrimaryKey x then
             emit [Ask (tableName @ '': new primary key '' @ name x
                         @ '' missing, need to rebuild database.'')]
               (st\<lparr>should_create := True\<rparr>)
           else emit [Query dbtype (AlterAdd (name x) (getWriteSQLType x))] st)
        else st)"

definition backfill :: "DBType \<Rightarrow> Field list \<Rightarrow> event list" where
  "backfill dbtype fs = map (\<lambda>x. Query dbtype (UpdateDefault x)) (filter (\<lambda>x. \<not> isPrimaryKey x) fs)"

text \<open>
  The body of \<^verbatim>\<open>if(rows->GetRow())\<close>, run on the rows the \<^verbatim>\<open>COLUMNS\<close> query returns:
  with no row the body is skipped and \<^verbatim>\<open>should_create\<close> keeps its initial value
  \<^verbatim>\<open>true\<close>; otherwise it is set to \<^verbatim>\<open>false\<close>, the loop runs, and the blocks for the
  fields that were not found follow.
\<close>

definition incremental ::
  "string \<Rightarrow> DBType \<Rightarrow> Field list \<Rightarrow> column_row list \<Rightarrow> gen_state" where
  "incremental tableName dbtype fs rows =
     (let st0 = \<lparr>trace = [Query world SelectColumns], should_create = True, found = {}\<rparr>
      in case rows of
           [] \<Rightarrow> st0
         | _ # _ \<Rightarrow>
             missing_fields tableName dbtype fs
               (fst (scan tableName dbtype fs rows (st0\<lparr>should_create := False\<rparr>))))"

text \<open>
  The whole block. The \<^verbatim>\<open>UPDATE\<close> statements are written after the closing brace of
  \<^verbatim>\<open>if (should_create)\<close>, so they run in every case.
\<close>

definition tableGeneration ::
  "string \<Rightarrow> DBType \<Rightarrow> Field list \<Rightarrow> column_row list \<Rightarrow> gen_state" where
  "tableGeneration tableName dbtype fs rows =
     (let st1 = incremental tableName dbtype fs rows;
          st2 = (if should_create st1 then
                   emit [Query dbtype DropTableIfExists, Query dbtype (CreateTable fs)] st1
                 else st1)
      in emit (backfill dbtype fs) st2)"

text \<open>
  \<^verbatim>\<open>writeTableCreationFile\<close> writes one block per entry and one per dictionary of the
  entry, each with the entry's database. The dictionary's table has the owner's primary
  keys, then \<^verbatim>\<open>map_key\<close> as a primary key and \<^verbatim>\<open>map_value\<close>.
\<close>

definition dictionary_fields :: "Entry \<Rightarrow> DBDictionary \<Rightarrow> Field list" where
  "dictionary_fields entry x =
     filter isPrimaryKey (entry_fields entry)
       @ [\<lparr>name = ''map_key'', type = keyType x, initialization = [], isPrimaryKey = True\<rparr>,
          \<lparr>name = ''map_value'', type = valueType x,
           initialization = (if valueType x = T_string then [CHR 0x22, CHR 0x22] else ''0''),
           isPrimaryKey = False\<rparr>]"

definition table_blocks :: "Entry \<Rightarrow> (string \<times> DBType \<times> Field list) list" where
  "table_blocks entry =
     (className entry, databaseType entry, entry_fields entry)
       # map (\<lambda>x. (db_name entry x, databaseType entry, dictionary_fields entry x))
           (dictionaries entry)"

subsection \<open>Reading a run\<close>

text \<open>
  The migration statements of a run are the statements it executed other than the two
  catalog queries; the messages of a run are the arguments of its \<^verbatim>\<open>ask\<close> calls.
\<close>

fun is_introspection :: "stmt \<Rightarrow> bool" where
  "is_introspection SelectColumns = True"
| "is_introspection (SelectKeyColumnUsage c) = True"
| "is_introspection s = False"

fun plan_of :: "event list \<Rightarrow> stmt list" where
  "plan_of [] = []"
| "plan_of (Ask m # es) = plan_of es"
| "plan_of (Query d s # es) = (if is_introspection s then plan_of es else s # plan_of es)"

fun asks_of :: "event list \<Rightarrow> string list" where
  "asks_of [] = []"
| "asks_of (Ask m # es) = m # asks_of es"
| "asks_of (Query d s # es) = asks_of es"

definition migration_plan :: "gen_state \<Rightarrow> stmt list" where
  "migration_plan st = plan_of (trace st)"

fun is_update :: "stmt \<Rightarrow> bool" where
  "is_update (UpdateDefault f) = True"
| "is_update s = False"

text \<open>
  The connection an event uses is the expected one: the world connection for a catalog
  query, the connection of the database \<open>d\<close> for a migration statement.
\<close>

fun routed :: "DBType \<Rightarrow> event \<Rightarrow> bool" where
  "routed d (Ask m) = True"
| "routed d (Query c s) = (if is_introspection s then c = world else c = d)"

text \<open>
  The row makes the loop take its \<^verbatim>\<open>break\<close>: the column is a declared field that is not
  a string, its upper-cased type is neither the field's read type nor \<^verbatim>\<open>TEXT\<close>, and the
  column is in \<^verbatim>\<open>KEY_COLUMN_USAGE\<close>.
\<close>

definition pk_drift :: "Field list \<Rightarrow> column_row \<Rightarrow> bool" where
  "pk_drift fs row =
     (case find (\<lambda>x. name x = column_name row) fs of
        None \<Rightarrow> False
      | Some x \<Rightarrow>
          type x \<noteq> T_string \<and> map toUpper (column_type row) \<noteq> getReadSQLType x
            \<and> map toUpper (column_type row) \<noteq> ''TEXT'' \<and> was_pk row)"

text \<open>
  The migration statements the loop executes on the given rows, up to the row where it
  leaves by \<^verbatim>\<open>break\<close>.
\<close>

definition scan_plan :: "string \<Rightarrow> DBType \<Rightarrow> Field list \<Rightarrow> column_row list \<Rightarrow> stmt list" where
  "scan_plan tableName dbtype fs rows =
     plan_of (trace (fst (scan tableName dbtype fs rows
                            \<lparr>trace = [], should_create = False, found = {}\<rparr>)))"

subsection \<open>A sample entity\<close>

text \<open>
  The class \<^verbatim>\<open>Player\<close> with \<^verbatim>\<open>@PrimaryKey id: uint32 = 0\<close>, \<^verbatim>\<open>@Field name: string = ""\<close>
  and \<^verbatim>\<open>@Field gold: uint32 = 0\<close>.
\<close>

definition f_id :: Field where
  "f_id = \<lparr>name = ''id'', type = T_uint32, initialization = ''0'', isPrimaryKey = True\<rparr>"

definition f_name :: Field where
  "f_name = \<lparr>name = ''name'', type = T_string, initialization = [CHR 0x22, CHR 0x22], isPrimaryKey = False\<rparr>"

definition f_gold :: Field where
  "f_gold = \<lparr>name = ''gold'', type = T_uint32, initialization = ''0'', isPrimaryKey = False\<rparr>"

definition player_fields :: "Field list" where
  "player_fields = [f_id, f_name, f_gold]"

section \<open>Building the entity model: the first part of \<^verbatim>\<open>handleClass\<close>\<close>

text \<open>
  What \<^verbatim>\<open>handleClass\<close> reads of a class declaration: the text of each decorator of the
  class, the class name and the members. Of a member: whether it is a property
  declaration, the text of each of its decorators, its name, the text of its type
  annotation and of its initializer (\<open>None\<close> where the declaration has none).
\<close>

record member_decl =
  is_property :: bool
  decorators :: "string list"
  member_name :: string
  member_type :: "string option"
  initializer :: "string option"

record class_decl =
  class_decorators :: "string list"
  class_name :: string
  members :: "member_decl list"

text \<open>
  The exceptions \<^verbatim>\<open>handleClass\<close> can raise: its five \<^verbatim>\<open>throw\<close> statements with the text
  they interpolate, and the \<^verbatim>\<open>TypeError\<close> of reading a property of \<^verbatim>\<open>undefined\<close>.
\<close>

datatype error =
    InvalidDictType string
  | InvalidFieldType string
  | StringPrimaryKey
  | NotInitialized
  | NoPrimaryKey
  | InvalidFieldTypeUndefined
  | TypeError

text \<open>\<^verbatim>\<open>String.prototype.split\<close> with a separator of one character.\<close>

fun splitOn :: "char \<Rightarrow> string \<Rightarrow> string list" where
  "splitOn c [] = [[]]"
| "splitOn c (x # xs) =
     (if x = c then [] # splitOn c xs
      else (case splitOn c xs of [] \<Rightarrow> [[x]] | w # ws \<Rightarrow> (x # w) # ws))"

text \<open>\<^verbatim>\<open>Object.keys(MethodTypes).includes(s)\<close>, with the key found.\<close>

definition parse_type :: "string \<Rightarrow> FieldType option" where
  "parse_type s = find (\<lambda>t. type_name t = s) MethodTypes"

text \<open>The first type argument that is no key of \<^verbatim>\<open>MethodTypes\<close>, as the \<^verbatim>\<open>for\<close> loop finds it.\<close>

definition first_invalid :: "string list \<Rightarrow> string option" where
  "first_invalid typeargs = find (\<lambda>ta. parse_type ta = None) typeargs"

text \<open>
  A dictionary as the member loop stores it: \<^verbatim>\<open>typeargs[1]\<close> is \<^verbatim>\<open>undefined\<close> when the type
  has one argument only.
\<close>

record raw_dictionary =
  raw_name :: string
  raw_keyType :: FieldType
  raw_valueType :: "FieldType option"

text \<open>The class decorators: the last of the three table decorators decides.\<close>

definition table_decorator :: "string list \<Rightarrow> DBType option" where
  "table_decorator ds =
     fold (\<lambda>ft entry.
             if ft = ''@WorldTable'' then Some world
             else if ft = ''@AuthTable'' then Some auth
             else if ft = ''@CharactersTable'' then Some characters
             else entry) ds None"

text \<open>The body of \<^verbatim>\<open>node.members.forEach\<close> for one member.\<close>

definition handle_member ::
  "member_decl \<Rightarrow> Field list \<times> raw_dictionary list
     \<Rightarrow> error + Field list \<times> raw_dictionary list" where
  "handle_member member acc =
     (if \<not> is_property member then Inr acc
      else
        let isPrimaryKey' = (''@PrimaryKey'' \<in> set (decorators member));
            isField = (''@Field'' \<in> set (decorators member) \<or> isPrimaryKey')
        in if \<not> isField then Inr acc
           else case member_type member of
                  None \<Rightarrow> Inl TypeError
                | Some ty \<Rightarrow>
                    if take 8 ty = ''TSDBDict'' then
                      (case splitOn (CHR ''<'') ty of
                         _ # rest # _ \<Rightarrow>
                           (let typeargs = splitOn (CHR '','') (hd (splitOn (CHR ''>'') rest))
                            in (case first_invalid typeargs of
                                  Some ta \<Rightarrow> Inl (InvalidDictType ta)
                                | None \<Rightarrow>
                                    Inr (fst acc,
                                         snd acc @
                                           [\<lparr>raw_name = member_name member,
                                             raw_keyType = the (parse_type (hd typeargs)),
                                             raw_valueType =
                                               (case tl typeargs of
                                                  [] \<Rightarrow> None
                                                | v # _ \<Rightarrow> parse_type v)\<rparr>])))
                       | _ \<Rightarrow> Inl TypeError)
                    else
                      (case parse_type ty of
                         None \<Rightarrow> Inl (InvalidFieldType ty)
                       | Some t \<Rightarrow>
                           if t = T_string \<and> isPrimaryKey' then Inl StringPrimaryKey
                           else (case initializer member of
                                   None \<Rightarrow> Inl NotInitialized
                                 | Some defValue \<Rightarrow>
                                     Inr (fst acc @
                                            [\<lparr>name = member_name member, type = t,
                                              initialization = defValue,
                                              isPrimaryKey = isPrimaryKey'\<rparr>],
                                          snd acc))))"

fun handle_members ::
  "member_decl list \<Rightarrow> Field list \<times> raw_dictionary list
     \<Rightarrow> error + Field list \<times> raw_dictionary list" where
  "handle_members [] acc = Inr acc"
| "handle_members (m # ms) acc =
     (case handle_member m acc of Inl e \<Rightarrow> Inl e | Inr acc' \<Rightarrow> handle_members ms acc')"

text \<open>
  The dictionaries with both types. While it writes \<^verbatim>\<open>Load\<close>, \<^verbatim>\<open>handleClass\<close> looks up
  the reader of the key type and of the value type of each dictionary, and the lookup
  throws for \<^verbatim>\<open>undefined\<close>.
\<close>

fun check_dictionaries :: "raw_dictionary list \<Rightarrow> error + DBDictionary list" where
  "check_dictionaries [] = Inr []"
| "check_dictionaries (r # rs) =
     (case raw_valueType r of
        None \<Rightarrow> Inl InvalidFieldTypeUndefined
      | Some v \<Rightarrow>
          (case check_dictionaries rs of
             Inl e \<Rightarrow> Inl e
           | Inr ds \<Rightarrow> Inr (\<lparr>dict_name = raw_name r, keyType = raw_keyType r, valueType = v\<rparr> # ds)))"

text \<open>
  The entry \<^verbatim>\<open>handleClass\<close> builds: \<open>Inr None\<close> when the class has no table decorator and
  the function returns at once, \<open>Inl\<close> when it throws.
\<close>

definition handleClass :: "class_decl \<Rightarrow> error + Entry option" where
  "handleClass node =
     (case table_decorator (class_decorators node) of
        None \<Rightarrow> Inr None
      | Some db \<Rightarrow>
          (case handle_members (members node) ([], []) of
             Inl e \<Rightarrow> Inl e
           | Inr (fs, raws) \<Rightarrow>
               if filter isPrimaryKey fs = [] then Inl NoPrimaryKey
               else (case check_dictionaries raws of
                       Inl e \<Rightarrow> Inl e
                     | Inr ds \<Rightarrow>
                         Inr (Some \<lparr>className = class_name node, entry_fields = fs,
                                    databaseType = db, dictionaries = ds\<rparr>))))"

section \<open>The query builders written by \<^verbatim>\<open>handleClass\<close>\<close>

text \<open>
  Each builder is written as a C++ expression that concatenates string literals and
  members of the object: \<^verbatim>\<open>JSTR("...") + this->x + JSTR("...")\<close>. \<open>Lit s\<close> is literal text
  (with \<^verbatim>\<open>\"\<close> read as the double quote it denotes) and \<open>This x\<close> the member \<^verbatim>\<open>this->x\<close>;
  text written between two members belongs to one literal. The value of the expression
  is the concatenation, given the text each member converts to.
\<close>

datatype piece = Lit string | This string

fun render :: "(string \<Rightarrow> string) \<Rightarrow> piece list \<Rightarrow> string" where
  "render env [] = []"
| "render env (Lit s # ps) = s @ render env ps"
| "render env (This x # ps) = env x @ render env ps"

text \<open>\<^verbatim>\<open>Array.prototype.join\<close>.\<close>

fun join :: "'a list \<Rightarrow> 'a list list \<Rightarrow> 'a list" where
  "join sep [] = []"
| "join sep [x] = x"
| "join sep (x # y # ys) = x @ sep @ join sep (y # ys)"

definition dq :: string where
  "dq = [CHR 0x22]"

definition pk_predicate :: "Field \<Rightarrow> piece list" where
  "pk_predicate x = [Lit (''`'' @ name x @ ''` = ''), This (name x)]"

definition loadQuery :: "Entry \<Rightarrow> piece list" where
  "loadQuery entry =
     [Lit (''SELECT * FROM `'' @ className entry @ ''` WHERE '')]
       @ join [Lit '' AND ''] (map pk_predicate (filter isPrimaryKey (entry_fields entry)))
       @ [Lit '';'']"

text \<open>The two callbacks of \<^verbatim>\<open>entry.fields.map\<close> in the save query.\<close>

definition value_pieces :: "Field \<Rightarrow> piece list" where
  "value_pieces x =
     (if type x = T_string then [Lit dq, This (name x), Lit dq] else [This (name x)])"

definition update_pieces :: "Field \<Rightarrow> piece list" where
  "update_pieces x =
     [Lit (''`'' @ name x @ ''` = '')]
       @ (if type x = T_string then [Lit dq] else [])
       @ [This (name x)]
       @ (if type x = T_string then [Lit dq] else [])"

definition saveQuery :: "Entry \<Rightarrow> piece list" where
  "saveQuery entry =
     [Lit (''INSERT INTO `'' @ toLowerCase (className entry) @ ''` VALUES ( '')]
       @ join [Lit '' , ''] (map value_pieces (entry_fields entry))
       @ [Lit '') ON DUPLICATE KEY UPDATE '']
       @ join [Lit '' , ''] (map update_pieces (entry_fields entry))
       @ [Lit '';'']"

definition removeQuery :: "Entry \<Rightarrow> piece list" where
  "removeQuery entry =
     [Lit (''DELETE FROM `'' @ toLowerCase (className entry) @ ''` WHERE '')]
       @ join [Lit '' AND ''] (map pk_predicate (filter isPrimaryKey (entry_fields entry)))
       @ [Lit '';'']"

text \<open>The static \<^verbatim>\<open>LoadQuery(query)\<close>, which \<^verbatim>\<open>Load\<close> executes.\<close>

definition LoadQuery :: "Entry \<Rightarrow> string \<Rightarrow> string" where
  "LoadQuery entry query =
     ''SELECT * from '' @ toLowerCase (className entry) @ '' WHERE '' @ query @ '';''"

section \<open>The \<^verbatim>\<open>save\<close> member written by \<^verbatim>\<open>handleClass\<close>\<close>

text \<open>
  A dictionary member as the written loops read it: the entries in iteration order
  (\<^verbatim>\<open>map_begin()\<close> to \<^verbatim>\<open>map_end()\<close>), each with the key \<^verbatim>\<open>itr->first\<close> and the value and flag
  \<^verbatim>\<open>itr->second._value\<close> and \<^verbatim>\<open>itr->second._dirty\<close>, and the erased keys in iteration order
  (\<^verbatim>\<open>erases_begin()\<close> to \<^verbatim>\<open>erases_end()\<close>). Keys and values are kept as the text they
  convert to.
\<close>

record map_entry =
  entry_key :: string
  entry_value :: string
  dirty :: bool

record dict_state =
  map_entries :: "map_entry list"
  erases :: "string list"

text \<open>
  The value of the C++ that \<^verbatim>\<open>wrap(str, is_string)\<close> writes, at the places where the
  generator puts it: after \<^verbatim>\<open>" + \<close> and before \<^verbatim>\<open> + "\<close>. \<open>str\<close> is the C++ expression and
  \<open>v\<close> the text \<^verbatim>\<open>std::to_string\<close> gives for its value. For a string the generator writes
  \<^verbatim>\<open>+ """ + std::string(str) + """\<close>, since \<^verbatim>\<open>\"\<close> in its template is a bare double quote:
  a unary plus and the three literals \<^verbatim>\<open>""\<close>, \<^verbatim>\<open>" + std::string(str) + "\<close> and \<^verbatim>\<open>""\<close> side
  by side, which C++ reads as one literal. The value is that constant text, whatever
  the string is.
\<close>

definition wrap :: "string \<Rightarrow> string \<Rightarrow> bool \<Rightarrow> string" where
  "wrap str v is_string = (if is_string then '' + std::string('' @ str @ '') + '' else v)"

text \<open>
  The statement of the first loop for the entry with key \<open>k\<close> and value \<open>v\<close>. The
  primary keys are written with the \<^verbatim>\<open>toString\<close> of an array, hence joined by a comma.
\<close>

definition upsert_text ::
  "Entry \<Rightarrow> (string \<Rightarrow> string) \<Rightarrow> DBDictionary \<Rightarrow> string \<Rightarrow> string \<Rightarrow> string" where
  "upsert_text entry env x k v =
     ''INSERT INTO `'' @ db_name entry x @ ''` VALUES (''
       @ join '',''
           (map (\<lambda>f. wrap (name f) (env (name f)) (type f = T_string))
              (filter isPrimaryKey (entry_fields entry)))
       @ '', '' @ wrap ''itr->first'' k (keyType x = T_string)
       @ '' , '' @ wrap ''itr->second._value'' v (valueType x = T_string)
       @ '') ON DUPLICATE KEY UPDATE  `map_value` = ''
       @ wrap ''itr->second._value'' v (valueType x = T_string)
       @ '';''"

text \<open>The statement of the second loop for the erased key \<open>k\<close>.\<close>

definition erase_text ::
  "Entry \<Rightarrow> (string \<Rightarrow> string) \<Rightarrow> DBDictionary \<Rightarrow> string \<Rightarrow> string" where
  "erase_text entry env x k =
     ''DELETE FROM `'' @ db_name entry x @ ''` WHERE ''
       @ join '' AND ''
           (map (\<lambda>f. ''`'' @ name f @ ''` = ''
                        @ wrap (name f) (env (name f)) (type f = T_string))
              (filter isPrimaryKey (entry_fields entry)))
       @ '' AND `map_key` = '' @ wrap ''*itr'' k (keyType x = T_string)
       @ '';''"

definition upsert_statements ::
  "Entry \<Rightarrow> (string \<Rightarrow> string) \<Rightarrow> DBDictionary \<Rightarrow> dict_state \<Rightarrow> string list" where
  "upsert_statements entry env x d =
     map (\<lambda>e. upsert_text entry env x (entry_key e) (entry_value e))
       (filter dirty (map_entries d))"

definition erase_statements ::
  "Entry \<Rightarrow> (string \<Rightarrow> string) \<Rightarrow> DBDictionary \<Rightarrow> dict_state \<Rightarrow> string list" where
  "erase_statements entry env x d = map (erase_text entry env x) (erases d)"

text \<open>
  Modelled from the spec: the functions \<^verbatim>\<open>QueryWorld\<close>, \<^verbatim>\<open>QueryAuth\<close> and
  \<^verbatim>\<open>QueryCharacters\<close> that the written code calls are not among the sources. The
  specification makes a statement that fails fatal to the run, surfaced to the caller
  and not retried: the call does not return, and nothing written after it runs. \<open>ok q\<close>
  tells whether the statement \<open>q\<close> succeeds. A loop sends its statements in order up to
  the first that fails; the result is what was sent and whether all succeeded.
\<close>

fun run_statements :: "(string \<Rightarrow> bool) \<Rightarrow> string list \<Rightarrow> string list \<times> bool" where
  "run_statements ok [] = ([], True)"
| "run_statements ok (q # qs) =
     (if ok q then (case run_statements ok qs of (sent, b) \<Rightarrow> (q # sent, b))
      else ([q], False))"

text \<open>
  Modelled from the spec: the member \<^verbatim>\<open>clear()\<close> of the dictionary class is not among the
  sources. The specification has it empty the dirty keys and the erased keys, so that
  the map is clean.
\<close>

definition clear :: "dict_state \<Rightarrow> dict_state" where
  "clear d = \<lparr>map_entries = map (\<lambda>e. e\<lparr>dirty := False\<rparr>) (map_entries d), erases = []\<rparr>"

text \<open>
  The part of \<^verbatim>\<open>save\<close> written for one dictionary: the loop over the entries, the loop
  over the erased keys, then \<^verbatim>\<open>clear()\<close>. The result is the statements sent, the
  dictionary afterwards, and whether the part ran to its end.
\<close>

definition flush ::
  "(string \<Rightarrow> bool) \<Rightarrow> Entry \<Rightarrow> (string \<Rightarrow> string) \<Rightarrow> DBDictionary \<Rightarrow> dict_state
     \<Rightarrow> string list \<times> dict_state \<times> bool" where
  "flush ok entry env x d =
     (case run_statements ok (upsert_statements entry env x d) of
        (sent1, False) \<Rightarrow> (sent1, d, False)
      | (sent1, True) \<Rightarrow>
          (case run_statements ok (erase_statements entry env x d) of
             (sent2, False) \<Rightarrow> (sent1 @ sent2, d, False)
           | (sent2, True) \<Rightarrow> (sent1 @ sent2, clear d, True)))"

text \<open>\<^verbatim>\<open>entry.dictionaries.forEach\<close>: the parts for the dictionaries, one after the other.\<close>

fun flush_all ::
  "(string \<Rightarrow> bool) \<Rightarrow> Entry \<Rightarrow> (string \<Rightarrow> string) \<Rightarrow> (DBDictionary \<times> dict_state) list
     \<Rightarrow> string list \<times> dict_state list \<times> bool" where
  "flush_all ok entry env [] = ([], [], True)"
| "flush_all ok entry env ((x, d) # rest) =
     (case flush ok entry env x d of
        (sent, d', False) \<Rightarrow> (sent, d' # map snd rest, False)
      | (sent, d', True) \<Rightarrow>
          (case flush_all ok entry env rest of
             (sent', ds', b) \<Rightarrow> (sent @ sent', d' # ds', b)))"

text \<open>
  \<^verbatim>\<open>save()\<close> on an object with the member values \<open>env\<close> and the dictionaries \<open>ds\<close>, one
  per dictionary of the entry: the save query first, then the dictionaries. Every
  statement goes through the connection of the entry's database.
\<close>

definition save ::
  "(string \<Rightarrow> bool) \<Rightarrow> Entry \<Rightarrow> (string \<Rightarrow> string) \<Rightarrow> dict_state list
     \<Rightarrow> string list \<times> dict_state list \<times> bool" where
  "save ok entry env ds =
     (let q = render env (saveQuery entry)
      in if ok q then
           (case flush_all ok entry env (zip (dictionaries entry) ds) of
              (sent, ds', b) \<Rightarrow> (q # sent, ds', b))
         else ([q], ds, False))"

section \<open>The save protocol as the specification words it\<close>

text \<open>
  For one sub-map: an upsert for every dirty key, then a delete for every erased key.
\<close>

definition dictionary_statements ::
  "Entry \<Rightarrow> (string \<Rightarrow> string) \<Rightarrow> DBDictionary \<times> dict_state \<Rightarrow> string list" where
  "dictionary_statements entry env p =
     upsert_statements entry env (fst p) (snd p) @ erase_statements entry env (fst p) (snd p)"

text \<open>
  The save query, then the statements of the first \<open>n\<close> sub-maps, one sub-map after the
  other. With \<open>n\<close> the number of sub-maps these are all the statements of a save.
\<close>

definition save_statements ::
  "Entry \<Rightarrow> (string \<Rightarrow> string) \<Rightarrow> dict_state list \<Rightarrow> nat \<Rightarrow> string list" where
  "save_statements entry env ds n =
     render env (saveQuery entry)
       # concat (map (dictionary_statements entry env) (take n (zip (dictionaries entry) ds)))"

section \<open>The statement formats as the specification words them\<close>


text \<open>The value of a field in a statement: quoted for a string, bare otherwise.\<close>

definition sql_value :: "(string \<Rightarrow> string) \<Rightarrow> Field \<Rightarrow> string" where
  "sql_value env x = (if type x = T_string then dq @ env (name x) @ dq else env (name x))"

definition assignment :: "(string \<Rightarrow> string) \<Rightarrow> Field \<Rightarrow> string" where
  "assignment env x = ''`'' @ name x @ ''` = '' @ sql_value env x"

text \<open>
  The save statement whose update clause has the fields \<open>upd\<close>; the specification words
  it with the fields that are not primary keys.
\<close>

definition save_text :: "Entry \<Rightarrow> Field list \<Rightarrow> (string \<Rightarrow> string) \<Rightarrow> string" where
  "save_text entry upd env =
     ''INSERT INTO `'' @ toLowerCase (className entry) @ ''` VALUES ( ''
       @ join '' , '' (map (sql_value env) (entry_fields entry))
       @ '') ON DUPLICATE KEY UPDATE ''
       @ join '' , '' (map (assignment env) upd)
       @ '';''"

definition spec_save_text :: "Entry \<Rightarrow> (string \<Rightarrow> string) \<Rightarrow> string" where
  "spec_save_text entry env =
     save_text entry (filter (\<lambda>x. \<not> isPrimaryKey x) (entry_fields entry)) env"

section \<open>Sample declarations and objects\<close>

definition player :: Entry where
  "player = \<lparr>className = ''Player'', entry_fields = player_fields,
             databaseType = characters, dictionaries = []\<rparr>"

definition player_values :: "string \<Rightarrow> string" where
  "player_values x =
     (if x = ''id'' then ''7'' else if x = ''name'' then ''bob''
      else if x = ''gold'' then ''10'' else [])"

text \<open>
  A class with a dictionary keyed by strings, and the entry it gives:
  \<^verbatim>\<open>@CharactersTable class Inventory { @PrimaryKey id: uint32 = 0; @Field items: TSDBDict<string,uint32> }\<close>
\<close>

definition inventory_class :: class_decl where
  "inventory_class =
     \<lparr>class_decorators = [''@CharactersTable''], class_name = ''Inventory'',
      members =
        [\<lparr>is_property = True, decorators = [''@PrimaryKey''], member_name = ''id'',
          member_type = Some ''uint32'', initializer = Some ''0''\<rparr>,
         \<lparr>is_property = True, decorators = [''@Field''], member_name = ''items'',
          member_type = Some ''TSDBDict<string,uint32>'', initializer = None\<rparr>]\<rparr>"

definition inventory :: Entry where
  "inventory =
     \<lparr>className = ''Inventory'', entry_fields = [f_id], databaseType = characters,
      dictionaries = [\<lparr>dict_name = ''items'', keyType = T_string, valueType = T_uint32\<rparr>]\<rparr>"

text \<open>A class whose primary key is a string: \<^verbatim>\<open>@PrimaryKey name: string = ""\<close>.\<close>

definition named_class :: class_decl where
  "named_class =
     \<lparr>class_decorators = [''@CharactersTable''], class_name = ''Named'',
      members =
        [\<lparr>is_property = True, decorators = [''@PrimaryKey''], member_name = ''name'',
          member_type = Some ''string'', initializer = Some [CHR 0x22, CHR 0x22]\<rparr>]\<rparr>"

text \<open>
  An entry with the dictionaries \<^verbatim>\<open>slots\<close> and \<^verbatim>\<open>limits\<close>, both
  \<^verbatim>\<open>TSDBDict<uint32,uint32>\<close>, and an object of it: \<^verbatim>\<open>slots\<close> has the dirty entry
  \<open>1 \<mapsto> 5\<close> and the clean entry \<open>2 \<mapsto> 6\<close>, \<^verbatim>\<open>limits\<close> has the dirty entry \<open>4 \<mapsto> 9\<close> and
  the erased key \<open>3\<close>. And a database on which every \<^verbatim>\<open>DELETE\<close> fails.
\<close>

definition slots :: DBDictionary where
  "slots = \<lparr>dict_name = ''slots'', keyType = T_uint32, valueType = T_uint32\<rparr>"

definition limits :: DBDictionary where
  "limits = \<lparr>dict_name = ''limits'', keyType = T_uint32, valueType = T_uint32\<rparr>"

definition bank :: Entry where
  "bank = \<lparr>className = ''Bank'', entry_fields = [f_id, f_gold], databaseType = characters,
            dictionaries = [slots, limits]\<rparr>"

definition bank_slots :: dict_state where
  "bank_slots =
     \<lparr>map_entries = [\<lparr>entry_key = ''1'', entry_value = ''5'', dirty = True\<rparr>,
                      \<lparr>entry_key = ''2'', entry_value = ''6'', dirty = False\<rparr>],
      erases = []\<rparr>"

definition bank_limits :: dict_state where
  "bank_limits =
     \<lparr>map_entries = [\<lparr>entry_key = ''4'', entry_value = ''9'', dirty = True\<rparr>],
      erases = [''3'']\<rparr>"

definition deletes_fail :: "string \<Rightarrow> bool" where
  "deletes_fail q = (take 6 q \<noteq> ''DELETE'')"

section \<open>Properties of the table reconciliation\<close>

subsection \<open>Helper facts\<close>

lemma plan_of_append: "plan_of (a @ b) = plan_of a @ plan_of b"
  by (induction a rule: plan_of.induct) auto

lemma asks_of_append: "asks_of (a @ b) = asks_of a @ asks_of b"
  by (induction a rule: asks_of.induct) auto

lemma emit_simps:
  "trace (emit es st) = trace st @ es"
  "should_create (emit es st) = should_create st"
  "found (emit es st) = found st"
  by (simp_all add: emit_def)

lemma plan_of_backfill: "plan_of (backfill d fs) = map UpdateDefault (filter (\<lambda>x. \<not> isPrimaryKey x) fs)"
  by (induction fs) (auto simp: backfill_def)

lemma asks_of_backfill: "asks_of (backfill d fs) = []"
  by (induction fs) (auto simp: backfill_def)

lemmas ex_defs = player_fields_def f_id_def f_name_def f_gold_def

lemmas run_defs = tableGeneration_def incremental_def migration_plan_def column_step_def
  Let_def emit_def backfill_def toUpper_def changed_type_msg_def pk_drift_def

lemma find_name_None: "x \<in> set fs \<Longrightarrow> find (\<lambda>y. name y = name x) fs \<noteq> None"
  by (auto simp: find_None_iff)

lemma find_name_Some: "find (\<lambda>x. name x = c) fs = Some x \<Longrightarrow> name x = c"
  by (induction fs) (auto split: if_splits)

lemma column_step_trace:
  "trace e0 = [] \<Longrightarrow>
   trace (fst (column_step t d fs r st)) = trace st @ trace (fst (column_step t d fs r e0))"
  by (simp add: column_step_def Let_def emit_simps split: option.splits)

lemma column_step_snd: "snd (column_step t d fs r st) = pk_drift fs r"
  by (simp add: column_step_def pk_drift_def Let_def split: option.splits)

lemma column_step_should_create:
  "should_create (fst (column_step t d fs r st)) = (should_create st \<or> pk_drift fs r)"
  by (auto simp add: column_step_def pk_drift_def Let_def emit_simps split: option.splits)

lemma column_step_plan_drift:
  "pk_drift fs r \<Longrightarrow> plan_of (trace (fst (column_step t d fs r st))) = plan_of (trace st)"
  by (auto simp add: column_step_def pk_drift_def Let_def emit_simps plan_of_append split: option.splits)

lemma column_step_no_update:
  "filter is_update (plan_of (trace (fst (column_step t d fs r st))))
     = filter is_update (plan_of (trace st))"
  by (simp add: column_step_def Let_def emit_simps plan_of_append split: option.splits)

lemma column_step_found:
  "found (fst (column_step t d fs r st))
     = (if find (\<lambda>x. name x = column_name r) fs = None then found st
        else insert (column_name r) (found st))"
  by (cases "find (\<lambda>x. name x = column_name r) fs")
    (auto simp add: column_step_def Let_def emit_simps dest: find_name_Some)

lemma column_step_mono: "set (trace st) \<subseteq> set (trace (fst (column_step t d fs r st)))"
  by (auto simp add: column_step_def Let_def emit_simps split: option.splits)

lemma column_step_drop:
  "find (\<lambda>x. name x = column_name r) fs = None \<Longrightarrow>
   Query d (AlterDrop (column_name r)) \<in> set (trace (fst (column_step t d fs r st)))"
  by (simp add: column_step_def Let_def emit_simps)

lemma column_step_routed:
  "\<forall>e\<in>set (trace st). routed d e \<Longrightarrow> \<forall>e\<in>set (trace (fst (column_step t d fs r st))). routed d e"
  by (auto simp add: column_step_def Let_def emit_simps split: option.splits)

lemma scan_trace:
  "trace e0 = [] \<Longrightarrow>
   trace (fst (scan t d fs rows st)) = trace st @ trace (fst (scan t d fs rows e0))"
proof (induction rows arbitrary: st e0)
  case Nil
  then show ?case by simp
next
  case (Cons r rows)
  obtain st1 b where s1: "column_step t d fs r st = (st1, b)" by (cases "column_step t d fs r st")
  obtain e1 b' where s2: "column_step t d fs r e0 = (e1, b')" by (cases "column_step t d fs r e0")
  have bb: "b = b'" using column_step_snd[of t d fs r st] column_step_snd[of t d fs r e0] s1 s2 by simp
  have tr: "trace st1 = trace st @ trace e1"
    using column_step_trace[OF Cons.prems, of t d fs r st] s1 s2 by simp
  show ?case
  proof (cases b)
    case True
    then show ?thesis using s1 s2 bb tr by simp
  next
    case False
    define z where "z = \<lparr>trace = [], should_create = False, found = {}\<rparr>"
    have z: "trace z = []" by (simp add: z_def)
    have "trace (fst (scan t d fs rows st1)) = trace st1 @ trace (fst (scan t d fs rows z))"
      using Cons.IH[OF z] .
    moreover have "trace (fst (scan t d fs rows e1)) = trace e1 @ trace (fst (scan t d fs rows z))"
      using Cons.IH[OF z] .
    ultimately show ?thesis using s1 s2 bb tr False by simp
  qed
qed

lemma scan_drift:
  "\<exists>r\<in>set rows. pk_drift fs r \<Longrightarrow>
   should_create (fst (scan t d fs rows st)) \<and>
   plan_of (trace (fst (scan t d fs rows st)))
     = plan_of (trace (fst (scan t d fs (takeWhile (\<lambda>r. \<not> pk_drift fs r) rows) st)))"
proof (induction rows arbitrary: st)
  case Nil
  then show ?case by simp
next
  case (Cons r rows)
  obtain st1 b where s1: "column_step t d fs r st = (st1, b)" by (cases "column_step t d fs r st")
  have b: "b = pk_drift fs r" using column_step_snd[of t d fs r st] s1 by simp
  show ?case
  proof (cases "pk_drift fs r")
    case True
    then show ?thesis
      using s1 b column_step_should_create[of t d fs r st] column_step_plan_drift[of fs r t d st]
      by simp
  next
    case False
    then have "\<exists>r\<in>set rows. pk_drift fs r" using Cons.prems by auto
    from Cons.IH[OF this, of st1] show ?thesis using s1 b False by simp
  qed
qed

lemma scan_no_update:
  "filter is_update (plan_of (trace (fst (scan t d fs rows st))))
     = filter is_update (plan_of (trace st))"
proof (induction rows arbitrary: st)
  case Nil
  then show ?case by simp
next
  case (Cons r rows)
  obtain st1 b where s1: "column_step t d fs r st = (st1, b)" by (cases "column_step t d fs r st")
  have "filter is_update (plan_of (trace st1)) = filter is_update (plan_of (trace st))"
    using column_step_no_update[of t d fs r st] s1 by simp
  then show ?case using s1 Cons.IH[of st1] by (cases b) simp_all
qed

lemma scan_mono: "set (trace st) \<subseteq> set (trace (fst (scan t d fs rows st)))"
proof (induction rows arbitrary: st)
  case Nil
  then show ?case by simp
next
  case (Cons r rows)
  obtain st1 b where s1: "column_step t d fs r st = (st1, b)" by (cases "column_step t d fs r st")
  have "set (trace st) \<subseteq> set (trace st1)" using column_step_mono[of st t d fs r] s1 by simp
  then show ?case using s1 Cons.IH[of st1] by (cases b) auto
qed

lemma scan_no_drift:
  "\<forall>r\<in>set rows. \<not> pk_drift fs r \<Longrightarrow>
   should_create (fst (scan t d fs rows st)) = should_create st
   \<and> found (fst (scan t d fs rows st))
       = found st \<union> {c \<in> column_name ` set rows. find (\<lambda>x. name x = c) fs \<noteq> None}
   \<and> (\<forall>r\<in>set rows. find (\<lambda>x. name x = column_name r) fs = None \<longrightarrow>
         Query d (AlterDrop (column_name r)) \<in> set (trace (fst (scan t d fs rows st))))"
proof (induction rows arbitrary: st)
  case Nil
  then show ?case by simp
next
  case (Cons r rows)
  obtain st1 b where s1: "column_step t d fs r st = (st1, b)" by (cases "column_step t d fs r st")
  have nd: "\<not> pk_drift fs r" and rest: "\<forall>r\<in>set rows. \<not> pk_drift fs r" using Cons.prems by auto
  have b: "\<not> b" using column_step_snd[of t d fs r st] s1 nd by simp
  have sc: "should_create st1 = should_create st"
    using column_step_should_create[of t d fs r st] s1 nd by simp
  have fo: "found st1 = (if find (\<lambda>x. name x = column_name r) fs = None then found st
        else insert (column_name r) (found st))"
    using column_step_found[of t d fs r st] s1 by simp
  have dr: "find (\<lambda>x. name x = column_name r) fs = None \<Longrightarrow>
     Query d (AlterDrop (column_name r)) \<in> set (trace st1)"
    using column_step_drop[of r fs d t st] s1 by simp
  have mono: "set (trace st1) \<subseteq> set (trace (fst (scan t d fs rows st1)))" by (rule scan_mono)
  have eq: "scan t d fs (r # rows) st = scan t d fs rows st1" using s1 b by simp
  from Cons.IH[OF rest, of st1]
  have ih1: "should_create (fst (scan t d fs rows st1)) = should_create st1"
    and ih2: "found (fst (scan t d fs rows st1))
       = found st1 \<union> {c \<in> column_name ` set rows. find (\<lambda>x. name x = c) fs \<noteq> None}"
    and ih3: "\<forall>r\<in>set rows. find (\<lambda>x. name x = column_name r) fs = None \<longrightarrow>
         Query d (AlterDrop (column_name r)) \<in> set (trace (fst (scan t d fs rows st1)))"
    by simp_all
  have "should_create (fst (scan t d fs (r # rows) st)) = should_create st"
    unfolding eq using ih1 sc by simp
  moreover have "found (fst (scan t d fs (r # rows) st))
       = found st \<union> {c \<in> column_name ` set (r # rows). find (\<lambda>x. name x = c) fs \<noteq> None}"
    unfolding eq ih2 fo by auto
  moreover have "\<forall>r'\<in>set (r # rows). find (\<lambda>x. name x = column_name r') fs = None \<longrightarrow>
         Query d (AlterDrop (column_name r')) \<in> set (trace (fst (scan t d fs (r # rows) st)))"
    unfolding eq using ih3 dr mono by auto
  ultimately show ?case by blast
qed

lemma scan_routed:
  "\<forall>e\<in>set (trace st). routed d e \<Longrightarrow> \<forall>e\<in>set (trace (fst (scan t d fs rows st))). routed d e"
proof (induction rows arbitrary: st)
  case Nil
  then show ?case by simp
next
  case (Cons r rows)
  obtain st1 b where s1: "column_step t d fs r st = (st1, b)" by (cases "column_step t d fs r st")
  have "\<forall>e\<in>set (trace st1). routed d e" using column_step_routed[OF Cons.prems, of t fs r] s1 by simp
  from Cons.IH[OF this] show ?case using s1 \<open>\<forall>e\<in>set (trace st1). routed d e\<close> by (cases b) simp_all
qed

lemma missing_fields_noop: "should_create st \<Longrightarrow> missing_fields t d fs st = st"
  by (induction fs arbitrary: st) auto

lemma missing_fields_no_update:
  "filter is_update (plan_of (trace (missing_fields t d fs st)))
     = filter is_update (plan_of (trace st))"
  by (induction fs arbitrary: st) (simp_all add: emit_simps plan_of_append)

lemma missing_fields_found: "found (missing_fields t d fs st) = found st"
  by (induction fs arbitrary: st) (simp_all add: emit_simps)

lemma missing_fields_mono: "set (trace st) \<subseteq> set (trace (missing_fields t d fs st))"
proof (induction fs arbitrary: st)
  case Nil
  then show ?case by simp
next
  case (Cons x xs)
  show ?case
    using Cons.IH[of "emit [Ask (t @ '': new primary key '' @ name x
                         @ '' missing, need to rebuild database.'')]
               (st\<lparr>should_create := True\<rparr>)"]
      Cons.IH[of "emit [Query d (AlterAdd (name x) (getWriteSQLType x))] st"]
      Cons.IH[of st]
    by (auto simp: emit_simps)
qed

lemma missing_fields_should_create:
  "should_create (missing_fields t d fs st)
     = (should_create st \<or> (\<exists>x\<in>set fs. isPrimaryKey x \<and> name x \<notin> found st))"
  by (induction fs arbitrary: st) (auto simp: emit_simps)

lemma missing_fields_append:
  "missing_fields t d (xs @ ys) st = missing_fields t d ys (missing_fields t d xs st)"
  by (induction xs arbitrary: st) simp_all

lemma missing_fields_add:
  assumes "\<not> should_create st" "\<forall>y\<in>set pre. isPrimaryKey y \<longrightarrow> name y \<in> found st"
    "\<not> isPrimaryKey x" "name x \<notin> found st"
  shows "Query d (AlterAdd (name x) (getWriteSQLType x))
           \<in> set (trace (missing_fields t d (pre @ x # post) st))"
proof -
  define s1 where "s1 = missing_fields t d pre st"
  have sc: "\<not> should_create s1"
    using assms(1,2) by (auto simp: s1_def missing_fields_should_create)
  have fo: "found s1 = found st" by (simp add: s1_def missing_fields_found)
  define s2 where "s2 = emit [Query d (AlterAdd (name x) (getWriteSQLType x))] s1"
  have "missing_fields t d (pre @ x # post) st = missing_fields t d post s2"
    using sc fo assms(3,4) by (simp add: missing_fields_append s1_def[symmetric] s2_def)
  moreover have "Query d (AlterAdd (name x) (getWriteSQLType x)) \<in> set (trace s2)"
    by (simp add: s2_def emit_simps)
  ultimately show ?thesis using missing_fields_mono[of s2 t d post] by auto
qed

lemma missing_fields_routed:
  "\<forall>e\<in>set (trace st). routed d e \<Longrightarrow> \<forall>e\<in>set (trace (missing_fields t d fs st)). routed d e"
proof (induction fs arbitrary: st)
  case Nil
  then show ?case by simp
next
  case (Cons x xs)
  show ?case
    unfolding missing_fields.simps
    by (rule Cons.IH) (use Cons.prems in \<open>auto simp: emit_simps\<close>)
qed

lemma missing_fields_prefix: "\<exists>es. trace (missing_fields t d fs st) = trace st @ es"
proof (induction fs arbitrary: st)
  case Nil
  then show ?case by simp
next
  case (Cons x xs)
  show ?case
    using Cons.IH[of "emit [Ask (t @ '': new primary key '' @ name x
                         @ '' missing, need to rebuild database.'')]
               (st\<lparr>should_create := True\<rparr>)"]
      Cons.IH[of "emit [Query d (AlterAdd (name x) (getWriteSQLType x))] st"]
      Cons.IH[of st]
    by (auto simp: emit_simps)
qed

subsection \<open>Rebuild on a drifted key column\<close>

text \<open>
  Claim C1, as the code has it. When some row makes the loop take its \<^verbatim>\<open>break\<close> (a
  declared non-string field whose column is in \<^verbatim>\<open>KEY_COLUMN_USAGE\<close> and whose type is
  neither the read type nor \<^verbatim>\<open>TEXT\<close>), \<^verbatim>\<open>should_create\<close> ends true and the run executes
  \<^verbatim>\<open>DROP TABLE IF EXISTS\<close>, \<^verbatim>\<open>CREATE TABLE\<close> and one \<^verbatim>\<open>UPDATE\<close> per field that is not a
  primary key, in this order and as its last statements. No statement is executed for
  that row, for the rows after it, or for a field that was not found. The statements
  already executed for the rows before it stay executed: each \<^verbatim>\<open>ALTER\<close> is sent when its
  row is read, nothing is collected first.
\<close>

theorem rebuild_on_primary_key_drift:
  assumes "\<exists>r\<in>set rows. pk_drift fs r"
  shows "migration_plan (tableGeneration t d fs rows)
           = scan_plan t d fs (takeWhile (\<lambda>r. \<not> pk_drift fs r) rows)
               @ [DropTableIfExists, CreateTable fs]
               @ map UpdateDefault (filter (\<lambda>x. \<not> isPrimaryKey x) fs)
         \<and> should_create (tableGeneration t d fs rows)"
proof -
  define st0 where "st0 = \<lparr>trace = [Query world SelectColumns], should_create = False, found = {}\<rparr>"
  define e0 where "e0 = \<lparr>trace = [], should_create = False, found = ({} :: string set)\<rparr>"
  define s where "s = fst (scan t d fs rows st0)"
  from assms obtain r rs where rows: "rows = r # rs" by (cases rows) auto
  have sc: "should_create s"
    and pl: "plan_of (trace s)
              = plan_of (trace (fst (scan t d fs (takeWhile (\<lambda>r. \<not> pk_drift fs r) rows) st0)))"
    using scan_drift[OF assms, of t d st0] by (simp_all add: s_def)
  have e0: "trace e0 = []" by (simp add: e0_def)
  have "plan_of (trace s) = scan_plan t d fs (takeWhile (\<lambda>r. \<not> pk_drift fs r) rows)"
    unfolding pl scan_trace[OF e0, of t d fs _ st0]
    by (simp add: plan_of_append st0_def scan_plan_def e0_def)
  moreover have "incremental t d fs rows = s"
    using sc by (simp add: incremental_def rows s_def st0_def missing_fields_noop)
  ultimately show ?thesis
    using sc
    by (simp add: tableGeneration_def migration_plan_def Let_def emit_simps plan_of_append
        plan_of_backfill)
qed

text \<open>
  With an undeclared column \<^verbatim>\<open>old\<close> read before the drifted key \<^verbatim>\<open>id\<close>, the run drops
  \<^verbatim>\<open>old\<close> and then rebuilds.
\<close>

theorem rebuild_on_primary_key_drift_witness:
  "(\<exists>r\<in>set [\<lparr>column_name = ''old'', column_type = ''int(11)'', was_pk = False\<rparr>,
         \<lparr>column_name = ''id'', column_type = ''bigint(20) unsigned'', was_pk = True\<rparr>]. pk_drift player_fields r)
   \<and> migration_plan (tableGeneration ''Player'' world player_fields
        [\<lparr>column_name = ''old'', column_type = ''int(11)'', was_pk = False\<rparr>,
         \<lparr>column_name = ''id'', column_type = ''bigint(20) unsigned'', was_pk = True\<rparr>])
     = [AlterDrop ''old'', DropTableIfExists, CreateTable player_fields,
        UpdateDefault f_name, UpdateDefault f_gold]
   \<and> should_create (tableGeneration ''Player'' world player_fields
        [\<lparr>column_name = ''old'', column_type = ''int(11)'', was_pk = False\<rparr>,
         \<lparr>column_name = ''id'', column_type = ''bigint(20) unsigned'', was_pk = True\<rparr>])"
proof -
  have h: "\<exists>r\<in>set [\<lparr>column_name = ''old'', column_type = ''int(11)'', was_pk = False\<rparr>,
         \<lparr>column_name = ''id'', column_type = ''bigint(20) unsigned'', was_pk = True\<rparr>]. pk_drift player_fields r"
    by (simp add: pk_drift_def ex_defs toUpper_def)
  show ?thesis
    using h rebuild_on_primary_key_drift[OF h, of "''Player''" world]
    by (simp add: ex_defs pk_drift_def toUpper_def scan_plan_def column_step_def Let_def emit_def)
qed

text \<open>
  The same run shows that the executed statements are not only the rebuild: the
  \<^verbatim>\<open>ALTER TABLE ... DROP\<close> of the earlier row is among them.
\<close>

theorem rebuild_keeps_earlier_steps_counterexample:
  "pk_drift player_fields
     \<lparr>column_name = ''id'', column_type = ''bigint(20) unsigned'', was_pk = True\<rparr>
   \<and> migration_plan (tableGeneration ''Player'' world player_fields
        [\<lparr>column_name = ''old'', column_type = ''int(11)'', was_pk = False\<rparr>,
         \<lparr>column_name = ''id'', column_type = ''bigint(20) unsigned'', was_pk = True\<rparr>])
     \<noteq> [DropTableIfExists, CreateTable player_fields, UpdateDefault f_name, UpdateDefault f_gold]
   \<and> AlterDrop ''old'' \<in> set (migration_plan (tableGeneration ''Player'' world player_fields
        [\<lparr>column_name = ''old'', column_type = ''int(11)'', was_pk = False\<rparr>,
         \<lparr>column_name = ''id'', column_type = ''bigint(20) unsigned'', was_pk = True\<rparr>]))"
  by (simp add: run_defs ex_defs)

subsection \<open>An empty catalog\<close>

text \<open>
  Claim C3, as the code has it. When the \<^verbatim>\<open>COLUMNS\<close> query returns no row, for the table
  of an entry as for the table of a dictionary, \<^verbatim>\<open>should_create\<close> keeps its initial value
  \<^verbatim>\<open>true\<close> and the run executes \<^verbatim>\<open>DROP TABLE IF EXISTS\<close>, \<^verbatim>\<open>CREATE TABLE\<close> and one
  \<^verbatim>\<open>UPDATE\<close> per field that is not a primary key; \<^verbatim>\<open>ask\<close> is not called.
\<close>

theorem create_on_empty_catalog:
  "migration_plan (tableGeneration t d fs [])
     = [DropTableIfExists, CreateTable fs] @ map UpdateDefault (filter (\<lambda>x. \<not> isPrimaryKey x) fs)
   \<and> asks_of (trace (tableGeneration t d fs [])) = []
   \<and> should_create (tableGeneration t d fs [])"
  by (simp add: tableGeneration_def incremental_def migration_plan_def Let_def emit_simps
      plan_of_append asks_of_append plan_of_backfill asks_of_backfill)

text \<open>
  For the sample entity the statements are not the single \<^verbatim>\<open>CREATE TABLE\<close>.
\<close>

theorem empty_catalog_plan_counterexample:
  "migration_plan (tableGeneration ''Player'' world player_fields []) \<noteq> [CreateTable player_fields]
   \<and> DropTableIfExists \<in> set (migration_plan (tableGeneration ''Player'' world player_fields []))
   \<and> UpdateDefault f_gold \<in> set (migration_plan (tableGeneration ''Player'' world player_fields []))
   \<and> should_create (tableGeneration ''Player'' world player_fields [])"
  by (simp add: run_defs ex_defs)

subsection \<open>The default values\<close>

text \<open>
  Claim C4, as the code has it. Every run ends with one \<^verbatim>\<open>UPDATE ... WHERE f IS NULL\<close>
  per field that is not a primary key, in declaration order, whatever \<^verbatim>\<open>should_create\<close>
  is: the statements of a run are those of the loop and of the blocks for the fields
  not found, then \<^verbatim>\<open>DROP TABLE IF EXISTS\<close> and \<^verbatim>\<open>CREATE TABLE\<close> exactly when
  \<^verbatim>\<open>should_create\<close> is true, then these updates. None of the earlier statements is an
  \<^verbatim>\<open>UPDATE\<close>.
\<close>

theorem backfill_in_every_run:
  "migration_plan (tableGeneration t d fs rows)
     = migration_plan (incremental t d fs rows)
         @ (if should_create (incremental t d fs rows)
            then [DropTableIfExists, CreateTable fs] else [])
         @ map UpdateDefault (filter (\<lambda>x. \<not> isPrimaryKey x) fs)
   \<and> filter is_update (migration_plan (incremental t d fs rows)) = []
   \<and> should_create (tableGeneration t d fs rows) = should_create (incremental t d fs rows)"
proof -
  have "filter is_update (migration_plan (incremental t d fs rows)) = []"
    by (cases rows)
      (simp_all add: incremental_def migration_plan_def missing_fields_no_update scan_no_update
        del: scan.simps)
  then show ?thesis
    by (simp add: tableGeneration_def migration_plan_def Let_def emit_simps plan_of_append
        plan_of_backfill)
qed

text \<open>
  The sample entity with only \<^verbatim>\<open>id\<close> in the catalog: no rebuild, two columns added, and
  both defaults written.
\<close>

theorem backfill_without_rebuild_counterexample:
  "\<not> should_create (tableGeneration ''Player'' world player_fields
        [\<lparr>column_name = ''id'', column_type = ''int(10) unsigned'', was_pk = True\<rparr>])
   \<and> migration_plan (tableGeneration ''Player'' world player_fields
        [\<lparr>column_name = ''id'', column_type = ''int(10) unsigned'', was_pk = True\<rparr>])
     = [AlterAdd ''name'' ''TEXT'', AlterAdd ''gold'' ''INT UNSIGNED'',
        UpdateDefault f_name, UpdateDefault f_gold]"
  by (simp add: run_defs ex_defs)

subsection \<open>Removed and added columns\<close>

text \<open>
  Claim C7, as the code has it. In a run over at least one row whose loop is not left
  by \<^verbatim>\<open>break\<close>: every column that is no declared field is dropped; \<^verbatim>\<open>should_create\<close>
  ends true exactly when a declared primary key is not among the columns, so a dropped
  column alone never causes a rebuild and a missing primary key always does; and a
  declared field that is not a primary key and not among the columns is added with its
  write type, provided no primary key declared before it is missing (the blocks are
  guarded by \<^verbatim>\<open>!should_create\<close>, which an earlier missing key has set).
\<close>

theorem incremental_run_steps:
  assumes "rows \<noteq> []" and "\<forall>r\<in>set rows. \<not> pk_drift fs r"
  shows "(\<forall>r\<in>set rows. find (\<lambda>x. name x = column_name r) fs = None \<longrightarrow>
            Query d (AlterDrop (column_name r)) \<in> set (trace (tableGeneration t d fs rows)))
       \<and> should_create (tableGeneration t d fs rows)
           = (\<exists>x\<in>set fs. isPrimaryKey x \<and> name x \<notin> column_name ` set rows)
       \<and> (\<forall>pre x post. fs = pre @ x # post \<and> \<not> isPrimaryKey x
             \<and> name x \<notin> column_name ` set rows
             \<and> (\<forall>y\<in>set pre. isPrimaryKey y \<longrightarrow> name y \<in> column_name ` set rows)
           \<longrightarrow> Query d (AlterAdd (name x) (getWriteSQLType x))
                 \<in> set (trace (tableGeneration t d fs rows)))"
proof -
  define st0 where "st0 = \<lparr>trace = [Query world SelectColumns], should_create = False, found = {}\<rparr>"
  define s where "s = fst (scan t d fs rows st0)"
  have inc: "incremental t d fs rows = missing_fields t d fs s"
    using assms(1) by (cases rows) (simp_all add: incremental_def s_def st0_def del: scan.simps)
  have mono: "set (trace (incremental t d fs rows)) \<subseteq> set (trace (tableGeneration t d fs rows))"
    by (auto simp: tableGeneration_def Let_def emit_simps)
  have sce: "should_create (tableGeneration t d fs rows) = should_create (incremental t d fs rows)"
    by (simp add: tableGeneration_def Let_def emit_simps)
  from scan_no_drift[OF assms(2), of t d st0]
  have sc: "\<not> should_create s"
    and fo: "found s = {c \<in> column_name ` set rows. find (\<lambda>x. name x = c) fs \<noteq> None}"
    and dr: "\<forall>r\<in>set rows. find (\<lambda>x. name x = column_name r) fs = None \<longrightarrow>
         Query d (AlterDrop (column_name r)) \<in> set (trace s)"
    by (simp_all add: s_def st0_def)
  have mem: "\<And>x. x \<in> set fs \<Longrightarrow> name x \<in> found s \<longleftrightarrow> name x \<in> column_name ` set rows"
    using find_name_None by (auto simp: fo)
  have a: "\<forall>r\<in>set rows. find (\<lambda>x. name x = column_name r) fs = None \<longrightarrow>
            Query d (AlterDrop (column_name r)) \<in> set (trace (tableGeneration t d fs rows))"
    using dr mono missing_fields_mono[of s t d fs] inc by auto
  have b: "should_create (tableGeneration t d fs rows)
           = (\<exists>x\<in>set fs. isPrimaryKey x \<and> name x \<notin> column_name ` set rows)"
    unfolding sce inc missing_fields_should_create using sc mem by auto
  have c: "Query d (AlterAdd (name x) (getWriteSQLType x))
                 \<in> set (trace (tableGeneration t d fs rows))"
    if h: "fs = pre @ x # post" "\<not> isPrimaryKey x" "name x \<notin> column_name ` set rows"
      "\<forall>y\<in>set pre. isPrimaryKey y \<longrightarrow> name y \<in> column_name ` set rows" for pre x post
  proof -
    have "\<forall>y\<in>set pre. isPrimaryKey y \<longrightarrow> name y \<in> found s" using h(1,4) mem by auto
    moreover have "name x \<notin> found s" using h(1,3) mem by auto
    ultimately have "Query d (AlterAdd (name x) (getWriteSQLType x))
           \<in> set (trace (missing_fields t d (pre @ x # post) s))"
      using missing_fields_add[OF sc _ h(2)] by blast
    then show ?thesis using inc h(1) mono by auto
  qed
  from a b c show ?thesis by blast
qed

text \<open>
  The sample entity with the columns \<^verbatim>\<open>id\<close> and \<^verbatim>\<open>old\<close>: \<^verbatim>\<open>old\<close> is dropped, \<^verbatim>\<open>gold\<close> is
  added, nothing is rebuilt.
\<close>

theorem incremental_run_steps_witness:
  "[\<lparr>column_name = ''id'', column_type = ''int(10) unsigned'', was_pk = True\<rparr>,
    \<lparr>column_name = ''old'', column_type = ''int(11)'', was_pk = False\<rparr>] \<noteq> []
   \<and> \<not> pk_drift player_fields
         \<lparr>column_name = ''id'', column_type = ''int(10) unsigned'', was_pk = True\<rparr>
   \<and> \<not> pk_drift player_fields
         \<lparr>column_name = ''old'', column_type = ''int(11)'', was_pk = False\<rparr>
   \<and> Query auth (AlterDrop ''old'') \<in> set (trace (tableGeneration ''Player'' auth player_fields
        [\<lparr>column_name = ''id'', column_type = ''int(10) unsigned'', was_pk = True\<rparr>,
         \<lparr>column_name = ''old'', column_type = ''int(11)'', was_pk = False\<rparr>]))
   \<and> \<not> should_create (tableGeneration ''Player'' auth player_fields
        [\<lparr>column_name = ''id'', column_type = ''int(10) unsigned'', was_pk = True\<rparr>,
         \<lparr>column_name = ''old'', column_type = ''int(11)'', was_pk = False\<rparr>])
   \<and> Query auth (AlterAdd ''gold'' ''INT UNSIGNED'') \<in> set (trace (tableGeneration ''Player'' auth player_fields
        [\<lparr>column_name = ''id'', column_type = ''int(10) unsigned'', was_pk = True\<rparr>,
         \<lparr>column_name = ''old'', column_type = ''int(11)'', was_pk = False\<rparr>]))"
proof -
  define rows where "rows = [\<lparr>column_name = ''id'', column_type = ''int(10) unsigned'', was_pk = True\<rparr>,
    \<lparr>column_name = ''old'', column_type = ''int(11)'', was_pk = False\<rparr>]"
  have h1: "rows \<noteq> []" by (simp add: rows_def)
  have h2: "\<forall>r\<in>set rows. \<not> pk_drift player_fields r"
    by (simp add: rows_def pk_drift_def ex_defs toUpper_def)
  note th = incremental_run_steps[OF h1 h2, of auth "''Player''"]
  have a: "Query auth (AlterDrop ''old'') \<in> set (trace (tableGeneration ''Player'' auth player_fields rows))"
    using th[THEN conjunct1] by (simp add: rows_def ex_defs)
  have b: "\<not> should_create (tableGeneration ''Player'' auth player_fields rows)"
    using th[THEN conjunct2, THEN conjunct1] by (simp add: rows_def ex_defs)
  have c: "Query auth (AlterAdd ''gold'' ''INT UNSIGNED'')
             \<in> set (trace (tableGeneration ''Player'' auth player_fields rows))"
    using th[THEN conjunct2, THEN conjunct2, rule_format, of "[f_id, f_name]" f_gold "[]"]
    by (simp add: rows_def ex_defs)
  from h1 h2 a b c show ?thesis unfolding rows_def by simp
qed

text \<open>
  The sample entity with the single column \<^verbatim>\<open>other\<close>: the loop is not left by
  \<^verbatim>\<open>break\<close>, \<^verbatim>\<open>gold\<close> is declared, is not a primary key and is not in the catalog, and no
  \<^verbatim>\<open>ALTER TABLE ... ADD\<close> is executed for it, since the missing key \<^verbatim>\<open>id\<close> comes first.
\<close>

theorem add_column_skipped_counterexample:
  "\<not> pk_drift player_fields
       \<lparr>column_name = ''other'', column_type = ''int(11)'', was_pk = False\<rparr>
   \<and> migration_plan (tableGeneration ''Player'' world player_fields
        [\<lparr>column_name = ''other'', column_type = ''int(11)'', was_pk = False\<rparr>])
     = [AlterDrop ''other'', DropTableIfExists, CreateTable player_fields,
        UpdateDefault f_name, UpdateDefault f_gold]
   \<and> AlterAdd ''gold'' ''INT UNSIGNED'' \<notin> set (migration_plan (tableGeneration ''Player'' world
        player_fields [\<lparr>column_name = ''other'', column_type = ''int(11)'', was_pk = False\<rparr>]))"
  by (simp add: run_defs ex_defs)

subsection \<open>Connections\<close>

text \<open>
  Claim C10. In every run, whatever the database of the entity, each of the two catalog
  queries goes through the world connection and every other statement through the
  connection of the entity's database; the run starts with the \<^verbatim>\<open>COLUMNS\<close> query.
\<close>

theorem catalog_queries_through_world:
  "(\<forall>e\<in>set (trace (tableGeneration t d fs rows)). routed d e)
   \<and> hd (trace (tableGeneration t d fs rows)) = Query world SelectColumns"
proof -
  define st0 where "st0 = \<lparr>trace = [Query world SelectColumns], should_create = False, found = {}\<rparr>"
  have "\<forall>e\<in>set (trace st0). routed d e" by (simp add: st0_def)
  then have "\<forall>e\<in>set (trace (missing_fields t d fs (fst (scan t d fs rows st0)))). routed d e"
    by (intro missing_fields_routed scan_routed)
  then have r: "\<forall>e\<in>set (trace (incremental t d fs rows)). routed d e"
    by (cases rows) (simp_all add: incremental_def st0_def del: scan.simps)
  have "\<forall>e\<in>set (backfill d fs). routed d e" by (auto simp: backfill_def)
  with r have 1: "\<forall>e\<in>set (trace (tableGeneration t d fs rows)). routed d e"
    by (auto simp: tableGeneration_def Let_def emit_simps)
  have "\<exists>es. trace (incremental t d fs rows) = Query world SelectColumns # es"
  proof (cases rows)
    case Nil
    then show ?thesis by (simp add: incremental_def)
  next
    case (Cons a list)
    define e0 where "e0 = \<lparr>trace = [], should_create = False, found = ({} :: string set)\<rparr>"
    have e0: "trace e0 = []" by (simp add: e0_def)
    have "trace (incremental t d fs rows) = trace (missing_fields t d fs (fst (scan t d fs rows st0)))"
      using Cons by (simp add: incremental_def st0_def del: scan.simps)
    then show ?thesis
      using missing_fields_prefix[of t d fs "fst (scan t d fs rows st0)"]
        scan_trace[OF e0, of t d fs rows st0]
      by (auto simp: st0_def)
  qed
  then have 2: "hd (trace (tableGeneration t d fs rows)) = Query world SelectColumns"
    by (auto simp: tableGeneration_def Let_def emit_simps)
  from 1 2 show ?thesis by simp
qed

text \<open>
  An entity of the auth database: the key query for the column \<^verbatim>\<open>old\<close> is sent through
  the world connection, the \<^verbatim>\<open>ALTER TABLE ... DROP\<close> through the auth connection.
\<close>

theorem catalog_queries_through_world_witness:
  "Query world (SelectKeyColumnUsage ''old'') \<in> set (trace (tableGeneration ''Player'' auth player_fields
        [\<lparr>column_name = ''old'', column_type = ''int(11)'', was_pk = False\<rparr>]))
   \<and> routed auth (Query world (SelectKeyColumnUsage ''old''))
   \<and> Query auth (AlterDrop ''old'') \<in> set (trace (tableGeneration ''Player'' auth player_fields
        [\<lparr>column_name = ''old'', column_type = ''int(11)'', was_pk = False\<rparr>]))
   \<and> routed auth (Query auth (AlterDrop ''old''))"
proof -
  define rows where "rows = [\<lparr>column_name = ''old'', column_type = ''int(11)'', was_pk = False\<rparr>]"
  have a: "Query world (SelectKeyColumnUsage ''old'')
             \<in> set (trace (tableGeneration ''Player'' auth player_fields rows))"
    by (simp add: rows_def run_defs ex_defs)
  have b: "Query auth (AlterDrop ''old'')
             \<in> set (trace (tableGeneration ''Player'' auth player_fields rows))"
    by (simp add: rows_def run_defs ex_defs)
  have c: "\<forall>e\<in>set (trace (tableGeneration ''Player'' auth player_fields rows)). routed auth e"
    using catalog_queries_through_world[of "''Player''" auth player_fields rows]
    by (rule conjunct1)
  from c a have a': "routed auth (Query world (SelectKeyColumnUsage ''old''))" by (rule bspec)
  from c b have b': "routed auth (Query auth (AlterDrop ''old''))" by (rule bspec)
  from a a' b b' show ?thesis unfolding rows_def by blast
qed

section \<open>Properties of the entity model\<close>

lemmas handle_defs = handleClass_def table_decorator_def handle_member_def first_invalid_def
  parse_type_def MethodTypes_def Let_def

text \<open>
  \<^verbatim>\<open>split\<close> returns at least one string, and after the loop over the type arguments the
  first of them is a key of \<^verbatim>\<open>MethodTypes\<close>: the reads \<^verbatim>\<open>[0]\<close> in the dictionary branch
  are defined.
\<close>

lemma splitOn_not_Nil: "splitOn c s \<noteq> []"
  by (induction s) (auto split: list.splits)

lemma first_invalid_None_hd:
  "first_invalid (splitOn c s) = None \<Longrightarrow> parse_type (hd (splitOn c s)) \<noteq> None"
  using splitOn_not_Nil[of c s]
  by (cases "splitOn c s") (auto simp: first_invalid_def split: if_splits)

text \<open>
  No field of an entry that \<^verbatim>\<open>handleClass\<close> builds is a string primary key, and the entry
  has a primary key.
\<close>

lemma handle_member_fields:
  assumes "handle_member m acc = Inr acc'"
    and "\<forall>f\<in>set (fst acc). isPrimaryKey f \<longrightarrow> type f \<noteq> T_string"
  shows "\<forall>f\<in>set (fst acc'). isPrimaryKey f \<longrightarrow> type f \<noteq> T_string"
  using assms
  by (auto simp: handle_member_def Let_def split: if_splits option.splits list.splits)

lemma handle_members_fields:
  assumes "handle_members ms acc = Inr acc'"
    and "\<forall>f\<in>set (fst acc). isPrimaryKey f \<longrightarrow> type f \<noteq> T_string"
  shows "\<forall>f\<in>set (fst acc'). isPrimaryKey f \<longrightarrow> type f \<noteq> T_string"
  using assms
proof (induction ms arbitrary: acc)
  case Nil
  then show ?case by simp
next
  case (Cons m ms)
  then obtain acc1 where a: "handle_member m acc = Inr acc1" and b: "handle_members ms acc1 = Inr acc'"
    by (auto split: sum.splits)
  from handle_member_fields[OF a Cons.prems(2)] Cons.IH[OF b] show ?case by blast
qed

lemma handleClass_own_fields:
  assumes "handleClass node = Inr (Some entry)"
  shows "(\<forall>f\<in>set (entry_fields entry). isPrimaryKey f \<longrightarrow> type f \<noteq> T_string)
         \<and> filter isPrimaryKey (entry_fields entry) \<noteq> []"
proof -
  from assms obtain db fs raws ds where
    hm: "handle_members (members node) ([], []) = Inr (fs, raws)"
    and pk: "filter isPrimaryKey fs \<noteq> []"
    and e: "entry = \<lparr>className = class_name node, entry_fields = fs,
                                    databaseType = db, dictionaries = ds\<rparr>"
    by (auto simp: handleClass_def split: option.splits sum.splits if_splits prod.splits)
  from handle_members_fields[OF hm] have "\<forall>f\<in>set fs. isPrimaryKey f \<longrightarrow> type f \<noteq> T_string"
    by simp
  with pk e show ?thesis by simp
qed

lemma string_primary_key_field_rejected: "handleClass named_class = Inl StringPrimaryKey"
  by (simp add: named_class_def handle_defs)

text \<open>
  Claim C6 fails on the code for dictionaries. The class \<^verbatim>\<open>Inventory\<close> with the member
  \<^verbatim>\<open>items: TSDBDict<string,uint32>\<close> is accepted, and the table written for the dictionary
  has the string column \<^verbatim>\<open>map_key\<close> as a primary key: the check that rejects a string
  primary key is made for fields only.
\<close>

theorem string_map_key_accepted:
  "handleClass inventory_class = Inr (Some inventory)
   \<and> table_blocks inventory
       = [(''Inventory'', characters, [f_id]),
          (''inventory_items'', characters,
           [f_id,
            \<lparr>name = ''map_key'', type = T_string, initialization = [], isPrimaryKey = True\<rparr>,
            \<lparr>name = ''map_value'', type = T_uint32, initialization = ''0'', isPrimaryKey = False\<rparr>])]"
  by (simp add: inventory_class_def inventory_def handle_defs table_blocks_def
      dictionary_fields_def db_name_def toLowerCase_def toLower_def ex_defs)

section \<open>Properties of the query builders\<close>

lemma render_append: "render env (a @ b) = render env a @ render env b"
  by (induction env a rule: render.induct) auto

lemma render_join:
  "render env (join [Lit sep] xss) = join sep (map (render env) xss)"
  by (induction "[Lit sep]" xss rule: join.induct) (simp_all add: render_append)


lemma render_value_pieces: "render env (value_pieces x) = sql_value env x"
  by (simp add: value_pieces_def sql_value_def)

lemma render_update_pieces: "render env (update_pieces x) = assignment env x"
  by (simp add: update_pieces_def assignment_def sql_value_def render_append)

lemmas text_defs = dq_def toLowerCase_def toLower_def player_def player_values_def



text \<open>
  Claim C2, as the code has it. The save query inserts the value of every field in
  declaration order, a string between double quotes and any other value bare, and its
  \<^verbatim>\<open>ON DUPLICATE KEY UPDATE\<close> clause assigns every field in declaration order, the
  primary keys included.
\<close>

theorem saveQuery_text:
  "render env (saveQuery entry) = save_text entry (entry_fields entry) env"
  by (simp add: saveQuery_def save_text_def render_append render_join comp_def
      render_value_pieces render_update_pieces)

text \<open>
  For the sample entity the clause starts with the primary key \<^verbatim>\<open>id\<close>.
\<close>

theorem saveQuery_updates_primary_key_counterexample:
  \<open>render player_values (saveQuery player)
     = ''INSERT INTO `player` VALUES ( 7 , "bob" , 10) ON DUPLICATE KEY UPDATE `id` = 7 , `name` = "bob" , `gold` = 10;''
   \<and> spec_save_text player player_values
     = ''INSERT INTO `player` VALUES ( 7 , "bob" , 10) ON DUPLICATE KEY UPDATE `name` = "bob" , `gold` = 10;''
   \<and> render player_values (saveQuery player) \<noteq> spec_save_text player player_values\<close>
  by (simp add: saveQuery_def value_pieces_def update_pieces_def spec_save_text_def
      save_text_def sql_value_def assignment_def text_defs ex_defs)

text \<open>
  Claim C9 fails on the code. For the class \<^verbatim>\<open>Player\<close> the query of \<^verbatim>\<open>loadQuery()\<close> names
  the table \<^verbatim>\<open>Player\<close>, as declared, while the queries of \<^verbatim>\<open>removeQuery()\<close>,
  \<^verbatim>\<open>saveQuery()\<close> and \<^verbatim>\<open>LoadQuery\<close> name the table \<^verbatim>\<open>player\<close>, in lower case. The
  table itself is created under the name as declared.
\<close>

theorem load_and_save_table_names_differ:
  \<open>render player_values (loadQuery player) = ''SELECT * FROM `Player` WHERE `id` = 7;''
   \<and> render player_values (removeQuery player) = ''DELETE FROM `player` WHERE `id` = 7;''
   \<and> render player_values (saveQuery player)
     = ''INSERT INTO `player` VALUES ( 7 , "bob" , 10) ON DUPLICATE KEY UPDATE `id` = 7 , `name` = "bob" , `gold` = 10;''
   \<and> LoadQuery player ''`id` = 7'' = ''SELECT * from player WHERE `id` = 7;''
   \<and> table_blocks player = [(''Player'', characters, player_fields)]\<close>
  by (simp add: loadQuery_def removeQuery_def saveQuery_def LoadQuery_def pk_predicate_def
      value_pieces_def update_pieces_def table_blocks_def text_defs ex_defs)

section \<open>Properties of \<^verbatim>\<open>save\<close>\<close>

lemma run_statements_snd: "snd (run_statements ok qs) = list_all ok qs"
  by (induction qs) (auto split: prod.splits)

lemma run_statements_all: "list_all ok qs \<Longrightarrow> fst (run_statements ok qs) = qs"
  by (induction qs) (auto split: prod.splits)

lemma run_statements_true: "run_statements (\<lambda>q. True) qs = (qs, True)"
  by (induction qs) auto

lemma run_statements_append:
  "fst (run_statements ok (a @ b))
     = (if list_all ok a then a @ fst (run_statements ok b) else fst (run_statements ok a))"
  by (induction a) (auto split: prod.splits)

lemma clear_clear: "clear (clear d) = clear d"
  by (simp add: clear_def comp_def)

lemma clear_clean: "dictionary_statements entry env (x, clear d) = []"
  by (simp add: dictionary_statements_def clear_def upsert_statements_def
      erase_statements_def filter_empty_conv)

text \<open>The part of \<^verbatim>\<open>save\<close> for one dictionary, in terms of its statements.\<close>

lemma flush_eq:
  "flush ok entry env x d
     = (fst (run_statements ok (dictionary_statements entry env (x, d))),
        if list_all ok (dictionary_statements entry env (x, d)) then clear d else d,
        list_all ok (dictionary_statements entry env (x, d)))"
proof -
  define ups where "ups = upsert_statements entry env x d"
  define ers where "ers = erase_statements entry env x d"
  obtain s1 b1 where r1: "run_statements ok ups = (s1, b1)" by (cases "run_statements ok ups")
  obtain s2 b2 where r2: "run_statements ok ers = (s2, b2)" by (cases "run_statements ok ers")
  have b1: "b1 = list_all ok ups" using run_statements_snd[of ok ups] r1 by simp
  have b2: "b2 = list_all ok ers" using run_statements_snd[of ok ers] r2 by simp
  have s1: "s1 = fst (run_statements ok ups)" using r1 by simp
  have s2: "s2 = fst (run_statements ok ers)" using r2 by simp
  have f: "flush ok entry env x d
             = (if b1 then (if b2 then (s1 @ s2, clear d, True) else (s1 @ s2, d, False))
                else (s1, d, False))"
    using r1 r2 by (simp add: flush_def ups_def ers_def)
  have d: "dictionary_statements entry env (x, d) = ups @ ers"
    by (simp add: dictionary_statements_def ups_def ers_def)
  show ?thesis
    unfolding f d
    using b1 b2 s1 s2 run_statements_all[of ok ups]
    by (simp add: run_statements_append)
qed

lemma map_snd_nth: "map (\<lambda>i. snd (ps ! i)) [0..<length ps] = map snd ps"
  by (rule nth_equalityI) simp_all

text \<open>The loop over the dictionaries: what it sends, and which dictionaries it clears.\<close>

lemma flush_all_eq:
  "flush_all ok entry env ps
     = (fst (run_statements ok (concat (map (dictionary_statements entry env) ps))),
        map (\<lambda>i. if list_all ok (concat (map (dictionary_statements entry env)
                                        (take (Suc i) ps)))
                  then clear (snd (ps ! i)) else snd (ps ! i)) [0..<length ps],
        list_all ok (concat (map (dictionary_statements entry env) ps)))"
proof (induction ps)
  case Nil
  then show ?case by simp
next
  case (Cons p ps)
  obtain x d where p: "p = (x, d)" by (cases p)
  define S where "S = dictionary_statements entry env (x, d)"
  show ?case
  proof (cases "list_all ok S")
    case False
    have "flush_all ok entry env (p # ps) = (fst (run_statements ok S), d # map snd ps, False)"
      using False by (simp add: p flush_eq S_def[symmetric])
    moreover have "map (\<lambda>i. if list_all ok (concat (map (dictionary_statements entry env)
                                        (take (Suc i) (p # ps))))
                  then clear (snd ((p # ps) ! i)) else snd ((p # ps) ! i)) [0..<length (p # ps)]
                 = map (\<lambda>i. snd ((p # ps) ! i)) [0..<length (p # ps)]"
      using False by (simp add: p S_def[symmetric])
    moreover have "map (\<lambda>i. snd ((p # ps) ! i)) [0..<length (p # ps)] = d # map snd ps"
      using map_snd_nth[of "p # ps"] by (simp add: p)
    ultimately show ?thesis
      using False by (simp add: p S_def[symmetric] run_statements_append)
  next
    case True
    have "flush_all ok entry env (p # ps)
            = (S @ fst (flush_all ok entry env ps),
               clear d # fst (snd (flush_all ok entry env ps)),
               snd (snd (flush_all ok entry env ps)))"
      using True
      by (cases "flush_all ok entry env ps")
        (simp add: p flush_eq S_def[symmetric] run_statements_all)
    moreover have "map (\<lambda>i. if list_all ok (concat (map (dictionary_statements entry env)
                                        (take (Suc i) (p # ps))))
                  then clear (snd ((p # ps) ! i)) else snd ((p # ps) ! i)) [0..<length (p # ps)]
                 = clear d # map (\<lambda>i. if list_all ok (concat (map (dictionary_statements entry env)
                                        (take (Suc i) ps)))
                  then clear (snd (ps ! i)) else snd (ps ! i)) [0..<length ps]"
      using True unfolding length_Cons map_upt_Suc by (simp add: p S_def[symmetric])
    ultimately show ?thesis
      using True by (simp add: Cons.IH p S_def[symmetric] run_statements_append)
  qed
qed

lemma clean_statements:
  "concat (map (dictionary_statements entry env) (zip xs (map clear ds))) = []"
proof (induction xs arbitrary: ds)
  case Nil
  then show ?case by simp
next
  case (Cons x xs)
  then show ?case by (cases ds) (simp_all add: clear_clean)
qed

text \<open>
  Claim C8. On an object with one dictionary state per dictionary of the entry, \<^verbatim>\<open>save\<close>
  sends the save query and then, one dictionary after the other, the upserts of its
  dirty entries followed by the deletes of its erased keys, up to and including the
  first statement that fails; it runs to its end exactly when every statement
  succeeds. A dictionary is cleared exactly when the save query and every statement of
  the dictionaries up to and including it succeeded; each other dictionary, the one
  whose statement failed among them, is as it was. Calling \<^verbatim>\<open>save\<close> again on the outcome,
  with every statement succeeding, sends the save query and the statements of the
  dictionaries not yet cleared, runs to its end and leaves every dictionary cleared;
  and a \<^verbatim>\<open>save\<close> of cleared dictionaries has the save query as its only statement.
\<close>

theorem save_flush_protocol:
  assumes "length ds = length (dictionaries entry)"
  shows "fst (save ok entry env ds)
           = fst (run_statements ok (save_statements entry env ds (length ds)))
       \<and> snd (snd (save ok entry env ds))
           = list_all ok (save_statements entry env ds (length ds))
       \<and> fst (snd (save ok entry env ds))
           = map (\<lambda>i. if list_all ok (save_statements entry env ds (Suc i))
                       then clear (ds ! i) else ds ! i) [0..<length ds]
       \<and> save (\<lambda>q. True) entry env (fst (snd (save ok entry env ds)))
           = (save_statements entry env (fst (snd (save ok entry env ds))) (length ds),
              map clear ds, True)
       \<and> save_statements entry env (map clear ds) (length ds) = [render env (saveQuery entry)]"
proof -
  define q where "q = render env (saveQuery entry)"
  define ps where "ps = zip (dictionaries entry) ds"
  define stm where "stm = dictionary_statements entry env"
  have len: "length ps = length ds" using assms by (simp add: ps_def)
  have nth: "\<And>i. i < length ds \<Longrightarrow> snd (ps ! i) = ds ! i" using assms by (simp add: ps_def)
  have upto: "\<And>n. save_statements entry env ds n = q # concat (map stm (take n ps))"
    by (simp add: save_statements_def q_def ps_def stm_def)
  have all: "save_statements entry env ds (length ds) = q # concat (map stm ps)"
    using len by (simp add: upto)
  define D where "D = map (\<lambda>i. if list_all ok (save_statements entry env ds (Suc i))
                       then clear (ds ! i) else ds ! i) [0..<length ds]"
  have s: "save ok entry env ds
             = (fst (run_statements ok (save_statements entry env ds (length ds))), D,
                list_all ok (save_statements entry env ds (length ds)))"
  proof (cases "ok q")
    case False
    then have "D = ds" by (intro nth_equalityI) (simp_all add: D_def upto)
    then show ?thesis using False by (simp add: save_def q_def[symmetric] all)
  next
    case True
    have "map (\<lambda>i. if list_all ok (concat (map stm (take (Suc i) ps)))
                  then clear (snd (ps ! i)) else snd (ps ! i)) [0..<length ps] = D"
      using True nth by (simp add: D_def upto len)
    then show ?thesis
      using True
      by (simp add: save_def q_def[symmetric] ps_def[symmetric] flush_all_eq
          stm_def[symmetric] all run_statements_append case_prod_beta)
  qed
  have lenD: "length D = length (dictionaries entry)" using assms by (simp add: D_def)
  have clrD: "map clear D = map clear ds"
    by (intro nth_equalityI) (simp_all add: D_def clear_clear)
  define ps' where "ps' = zip (dictionaries entry) D"
  have len': "length ps' = length D" using lenD by (simp add: ps'_def)
  have nth': "\<And>i. i < length D \<Longrightarrow> snd (ps' ! i) = D ! i" using lenD by (simp add: ps'_def)
  have "map (\<lambda>i. clear (snd (ps' ! i))) [0..<length ps'] = map clear D"
    by (intro nth_equalityI) (simp_all add: nth' len')
  then have retry: "save (\<lambda>q. True) entry env D
           = (save_statements entry env D (length ds), map clear ds, True)"
    using lenD assms clrD len'
    by (simp add: save_def flush_all_eq run_statements_true save_statements_def
        ps'_def[symmetric] list_all_iff case_prod_beta)
  have clean: "save_statements entry env (map clear ds) (length ds) = [render env (saveQuery entry)]"
    using assms by (simp add: save_statements_def clean_statements)
  show ?thesis using s retry clean by (simp add: D_def)
qed

text \<open>
  The sample object on the database where every \<^verbatim>\<open>DELETE\<close> fails: the save query and
  the upsert of \<^verbatim>\<open>slots\<close> are sent and \<^verbatim>\<open>slots\<close> is cleared; the upsert of \<^verbatim>\<open>limits\<close> is sent,
  its delete fails, and \<^verbatim>\<open>limits\<close> keeps its dirty entry and its erased key.
\<close>

theorem save_flush_protocol_witness:
  \<open>length [bank_slots, bank_limits] = length (dictionaries bank)
   \<and> fst (save deletes_fail bank player_values [bank_slots, bank_limits])
       = [''INSERT INTO `bank` VALUES ( 7 , 10) ON DUPLICATE KEY UPDATE `id` = 7 , `gold` = 10;'',
          ''INSERT INTO `bank_slots` VALUES (7, 1 , 5) ON DUPLICATE KEY UPDATE  `map_value` = 5;'',
          ''INSERT INTO `bank_limits` VALUES (7, 4 , 9) ON DUPLICATE KEY UPDATE  `map_value` = 9;'',
          ''DELETE FROM `bank_limits` WHERE `id` = 7 AND `map_key` = 3;'']
   \<and> \<not> snd (snd (save deletes_fail bank player_values [bank_slots, bank_limits]))
   \<and> fst (snd (save deletes_fail bank player_values [bank_slots, bank_limits]))
       = [clear bank_slots, bank_limits]\<close>
proof -
  have h: "length [bank_slots, bank_limits] = length (dictionaries bank)"
    by (simp add: bank_def)
  note th = save_flush_protocol[OF h, of deletes_fail player_values]
  have st: \<open>save_statements bank player_values [bank_slots, bank_limits] (Suc 0)
       = [''INSERT INTO `bank` VALUES ( 7 , 10) ON DUPLICATE KEY UPDATE `id` = 7 , `gold` = 10;'',
          ''INSERT INTO `bank_slots` VALUES (7, 1 , 5) ON DUPLICATE KEY UPDATE  `map_value` = 5;'']\<close>
    \<open>save_statements bank player_values [bank_slots, bank_limits] (Suc (Suc 0))
       = [''INSERT INTO `bank` VALUES ( 7 , 10) ON DUPLICATE KEY UPDATE `id` = 7 , `gold` = 10;'',
          ''INSERT INTO `bank_slots` VALUES (7, 1 , 5) ON DUPLICATE KEY UPDATE  `map_value` = 5;'',
          ''INSERT INTO `bank_limits` VALUES (7, 4 , 9) ON DUPLICATE KEY UPDATE  `map_value` = 9;'',
          ''DELETE FROM `bank_limits` WHERE `id` = 7 AND `map_key` = 3;'']\<close>
    by (simp_all add: save_statements_def dictionary_statements_def upsert_statements_def
        erase_statements_def upsert_text_def erase_text_def wrap_def db_name_def
        saveQuery_def value_pieces_def update_pieces_def
        toLowerCase_def toLower_def bank_def slots_def limits_def bank_slots_def
        bank_limits_def player_values_def ex_defs)
  from th h show ?thesis
    by (simp add: st deletes_fail_def upt_rec[of 0] upt_rec[of "Suc 0"])
qed

end
